theory Spec2Isabelle
  imports Main "HOL-Library.Sublist"
begin

section \<open>JavaScript strings\<close>

text \<open>
  A JavaScript string is a sequence of UTF-16 code units; a code unit is modelled as a
  natural number. ASCII literals of the source are written \<open>str ''...''\<close>, other
  characters by their code unit.
\<close>

type_synonym jsstring = "nat list"

definition str :: "string \<Rightarrow> jsstring" where
  "str s = map of_char s"

text \<open>
  \<open>String.prototype.toLowerCase\<close> and \<open>toUpperCase\<close>, code unit by code unit. The
  tables below are the Unicode case mappings of U+0000 to U+00FF; a code unit above
  U+00FF is left as it is, so the two functions are the platform's only on text of that
  range (ASCII and Latin-1, which holds the German letters the page is written for).
\<close>

definition lower_unit :: "nat \<Rightarrow> nat" where
  "lower_unit c =
     (if 65 \<le> c \<and> c \<le> 90 then c + 32
      else if 192 \<le> c \<and> c \<le> 222 \<and> c \<noteq> 215 then c + 32
      else c)"

definition toLowerCase :: "jsstring \<Rightarrow> jsstring" where
  "toLowerCase s = map lower_unit s"

definition upper_unit :: "nat \<Rightarrow> jsstring" where
  "upper_unit c =
     (if 97 \<le> c \<and> c \<le> 122 then [c - 32]
      else if 224 \<le> c \<and> c \<le> 254 \<and> c \<noteq> 247 then [c - 32]
      else if c = 223 then [83, 83]
      else if c = 255 then [376]
      else if c = 181 then [924]
      else [c])"

definition toUpperCase :: "jsstring \<Rightarrow> jsstring" where
  "toUpperCase s = concat (map upper_unit s)"

text \<open>\<open>s.includes(sub)\<close>: \<open>sub\<close> occurs in \<open>s\<close> as a contiguous run.\<close>

fun js_includes :: "jsstring \<Rightarrow> jsstring \<Rightarrow> bool" where
  "js_includes [] sub = (sub = [])"
| "js_includes (c # cs) sub = (prefix sub (c # cs) \<or> js_includes cs sub)"

text \<open>
  The characters that \<open>trim\<close>, \<open>trimStart\<close> and the class \<open>\s\<close> of a regular
  expression take for white space (ECMAScript's WhiteSpace and LineTerminator), and the
  line terminators, which \<open>.\<close> does not match.
\<close>

definition is_ws :: "nat \<Rightarrow> bool" where
  "is_ws c = (c \<in> {9, 10, 11, 12, 13, 32, 160, 5760, 8232, 8233, 8239, 8287, 12288, 65279}
              \<or> (8192 \<le> c \<and> c \<le> 8202))"

definition is_line_terminator :: "nat \<Rightarrow> bool" where
  "is_line_terminator c = (c \<in> {10, 13, 8232, 8233})"

definition trimStart :: "jsstring \<Rightarrow> jsstring" where
  "trimStart s = dropWhile is_ws s"

definition trim :: "jsstring \<Rightarrow> jsstring" where
  "trim s = rev (dropWhile is_ws (rev (dropWhile is_ws s)))"

text \<open>
  \<open>s.split(sep)\<close> for a separator that is not empty (the page splits on \<open>","\<close>,
  \<open>":"\<close>, \<open>"\n"\<close>, \<open>" "\<close>, \<open>" - "\<close> and the same with an en dash):
  \<open>split_acc sep cur s\<close> scans \<open>s\<close> with the piece read so far in \<open>cur\<close>; after a
  separator the scan goes on behind it. \<open>js_join\<close> is \<open>pieces.join(sep)\<close>.
\<close>

function split_acc :: "jsstring \<Rightarrow> jsstring \<Rightarrow> jsstring \<Rightarrow> jsstring list" where
  "split_acc sep cur [] = [cur]"
| "split_acc sep cur (c # cs) =
     (if sep \<noteq> [] \<and> prefix sep (c # cs)
      then cur # split_acc sep [] (drop (length sep) (c # cs))
      else split_acc sep (cur @ [c]) cs)"
  by pat_completeness auto
termination
  by (relation "measure (\<lambda>(sep, cur, s). length s)") auto

definition js_split :: "jsstring \<Rightarrow> jsstring \<Rightarrow> jsstring list" where
  "js_split sep s = split_acc sep [] s"

fun js_join :: "jsstring \<Rightarrow> jsstring list \<Rightarrow> jsstring" where
  "js_join sep [] = []"
| "js_join sep [p] = p"
| "js_join sep (p # q # ps) = p @ sep @ js_join sep (q # ps)"

section \<open>Plain objects used as maps\<close>

text \<open>
  The page keeps its maps from fixture ids (\<open>Record<string, string>\<close>) in plain
  objects. Such an object is modelled by its own properties; what \<open>obj[k]\<close> yields is
  the own property, or, for the names that every object inherits from
  \<open>Object.prototype\<close>, an inherited value (a function, or the prototype itself for
  \<open>__proto__\<close>), which is truthy and no string, or else \<open>undefined\<close>.
\<close>

type_synonym 'v jsobject = "jsstring \<rightharpoonup> 'v"

definition proto_names :: "jsstring list" where
  "proto_names = map str
     [''constructor'', ''__defineGetter__'', ''__defineSetter__'', ''hasOwnProperty'',
      ''__lookupGetter__'', ''__lookupSetter__'', ''isPrototypeOf'',
      ''propertyIsEnumerable'', ''toString'', ''valueOf'', ''__proto__'',
      ''toLocaleString'']"

datatype 'v lookup = Undefined | Own 'v | Inherited

definition js_get :: "'v jsobject \<Rightarrow> jsstring \<Rightarrow> 'v lookup" where
  "js_get obj k =
     (case obj k of
        Some v \<Rightarrow> Own v
      | None \<Rightarrow> if k \<in> set proto_names then Inherited else Undefined)"

text \<open>
  The assignment \<open>obj[k] = v\<close> of a string \<open>v\<close> makes an own property, except under
  the name \<open>__proto__\<close>, where it calls the inherited setter, which ignores a value that
  is no object (unless the object has an own property of that name already). A computed
  key in an object literal, as in \<open>{ ...m, [k]: v }\<close>, always makes an own property:
  that is \<open>m(k \<mapsto> v)\<close>; and \<open>delete copy[k]\<close> is \<open>m(k := None)\<close>.
\<close>

definition js_assign :: "'v jsobject \<Rightarrow> jsstring \<Rightarrow> 'v \<Rightarrow> 'v jsobject" where
  "js_assign obj k v =
     (if k = str ''__proto__'' \<and> obj k = None then obj else obj(k \<mapsto> v))"

section \<open>Data model of the page\<close>

text \<open>
  The types \<open>Pitch\<close>, \<open>Booking\<close> and \<open>IcsGame\<close> of \<open>src/app/bfv/page.tsx\<close>.
  Identifiers issued by the store (pitch, team, booking and user ids) are opaque and only
  compared, so they are natural numbers here. A \<open>Date\<close> is its time value, the
  milliseconds since the epoch; \<open>start_at\<close> and \<open>end_at\<close> of a booking are timestamp
  strings that the page only ever reads through \<open>new Date(...)\<close>, so a booking carries
  the time values they denote.
\<close>

datatype pitch_type = GROSSFELD | KOMPAKT

record Pitch =
  p_id :: nat
  p_name :: jsstring
  p_type :: pitch_type

record Booking =
  b_id :: nat
  b_start_at :: int
  b_end_at :: int
  b_status :: jsstring
  b_note :: "jsstring option"
  b_team_id :: nat
  b_pitch_id :: nat
  b_created_by :: "nat option"

record IcsGame =
  g_uid :: jsstring
  g_summary :: jsstring
  g_start :: int
  g_end :: int
  g_location :: "jsstring option"
  g_isHome :: "bool option"

section \<open>Availability\<close>

definition BLOCKING_STATUSES :: "jsstring set" where
  "BLOCKING_STATUSES = {str ''REQUESTED'', str ''APPROVED''}"

definition overlaps :: "int \<Rightarrow> int \<Rightarrow> int \<Rightarrow> int \<Rightarrow> bool" where
  "overlaps aStart aEnd bStart bEnd = (aStart < bEnd \<and> bStart < aEnd)"

text \<open>\<open>ageU\<close> is \<open>number | null\<close>: the age class of the selected team.\<close>

definition allowedPitchesForAge :: "Pitch list \<Rightarrow> int option \<Rightarrow> Pitch list" where
  "allowedPitchesForAge pitches ageU =
     (case ageU of
        None \<Rightarrow> pitches
      | Some a \<Rightarrow>
          if a \<ge> 14 then
            filter (\<lambda>p. let n = toLowerCase (p_name p)
                        in p_type p = GROSSFELD \<and>
                           (js_includes n (str ''mitte'') \<or> js_includes n (str ''rechts''))) pitches
          else pitches)"

text \<open>
  \<open>getAvailablePitches\<close> reads the pitch inventory and the selected team's age class
  from the component state; they are arguments here.
\<close>

definition getAvailablePitches ::
    "Pitch list \<Rightarrow> int option \<Rightarrow> IcsGame \<Rightarrow> Booking list \<Rightarrow> Pitch list" where
  "getAvailablePitches pitches ageU game bookingsList =
     (let candidates = allowedPitchesForAge pitches ageU;
          gStart = g_start game;
          gEnd = g_end game;
          blockingBookings =
            filter (\<lambda>b. toUpperCase (b_status b) \<in> BLOCKING_STATUSES) bookingsList
      in filter (\<lambda>p.
           let collision =
                 list_ex (\<lambda>b. if b_pitch_id b \<noteq> p_id p then False
                               else overlaps gStart gEnd (b_start_at b) (b_end_at b))
                   blockingBookings
           in \<not> collision) candidates)"

section \<open>The fixture tag\<close>

text \<open>
  \<open>findBfvUid\<close> runs the regular expression \<open>/\[BFV_UID:([^\]]+)\]/i\<close> on the note.
  Under the flag \<open>i\<close> (without \<open>u\<close>) two code units match when their canonical forms
  agree; the canonical form of an ASCII letter is its upper case, and no code unit outside
  ASCII has an ASCII canonical form, so against the ASCII pattern only the two cases of a
  letter match. \<open>match_ci pat s\<close> matches the literal \<open>pat\<close> at the start of \<open>s\<close> and
  returns what follows it.
\<close>

definition canon :: "nat \<Rightarrow> nat" where
  "canon c = (if 97 \<le> c \<and> c \<le> 122 then c - 32 else c)"

fun match_ci :: "jsstring \<Rightarrow> jsstring \<Rightarrow> jsstring option" where
  "match_ci [] s = Some s"
| "match_ci (p # ps) [] = None"
| "match_ci (p # ps) (c # cs) = (if canon p = canon c then match_ci ps cs else None)"

text \<open>
  The expression anchored at the start of \<open>s\<close>: the literal, then the longest run of
  code units other than \<open>]\<close> (code unit 93), which must not be empty, then \<open>]\<close>. A
  shorter run cannot be followed by \<open>]\<close>, so there is nothing to backtrack to.
\<close>

definition bfv_uid_at :: "jsstring \<Rightarrow> jsstring option" where
  "bfv_uid_at s =
     (case match_ci (str ''[BFV_UID:'') s of
        None \<Rightarrow> None
      | Some rest \<Rightarrow>
          let cap = takeWhile (\<lambda>c. c \<noteq> 93) rest;
              after = dropWhile (\<lambda>c. c \<noteq> 93) rest
          in if cap \<noteq> [] \<and> after \<noteq> [] then Some cap else None)"

text \<open>\<open>note.match(...)\<close>: the match at the leftmost position that has one.\<close>

fun bfv_uid_search :: "jsstring \<Rightarrow> jsstring option" where
  "bfv_uid_search [] = bfv_uid_at []"
| "bfv_uid_search (c # cs) =
     (case bfv_uid_at (c # cs) of Some u \<Rightarrow> Some u | None \<Rightarrow> bfv_uid_search cs)"

definition findBfvUid :: "jsstring option \<Rightarrow> jsstring option" where
  "findBfvUid note =
     (case note of
        None \<Rightarrow> None
      | Some n \<Rightarrow> if n = [] then None else bfv_uid_search n)"

text \<open>
  The note that \<open>bookApproved\<close> writes, the template literal
  \<open>`[BFV] ${game.summary}\n[BFV_UID:${game.uid}]`\<close>.
\<close>

definition book_note :: "IcsGame \<Rightarrow> jsstring" where
  "book_note game =
     str ''[BFV] '' @ g_summary game @ [10] @ str ''[BFV_UID:'' @ g_uid game @ str '']''"

text \<open>
  The two objects that \<open>loadBookingsForRange\<close> builds from the list it has loaded,
  by \<open>uidToBookingId[uid] = b.id\<close> and \<open>uidToPitchId[uid] = b.pitch_id\<close> for every
  booking whose note holds a tag. A key that was written before is overwritten.
\<close>

fun uid_maps ::
    "nat jsobject \<times> nat jsobject \<Rightarrow> Booking list \<Rightarrow> nat jsobject \<times> nat jsobject" where
  "uid_maps (uidToBookingId, uidToPitchId) [] = (uidToBookingId, uidToPitchId)"
| "uid_maps (uidToBookingId, uidToPitchId) (b # list) =
     (case findBfvUid (b_note b) of
        None \<Rightarrow> uid_maps (uidToBookingId, uidToPitchId) list
      | Some uid \<Rightarrow>
          uid_maps (js_assign uidToBookingId uid (b_id b),
                    js_assign uidToPitchId uid (b_pitch_id b)) list)"

definition uidToBookingId :: "Booking list \<Rightarrow> nat jsobject" where
  "uidToBookingId list = fst (uid_maps (Map.empty, Map.empty) list)"

definition uidToPitchId :: "Booking list \<Rightarrow> nat jsobject" where
  "uidToPitchId list = snd (uid_maps (Map.empty, Map.empty) list)"

section \<open>Home or away\<close>

text \<open>
  \<open>s.normalize("NFKD")\<close>: the compatibility decomposition of each code unit. The table
  holds the decompositions of U+0000 to U+00FF (all other code units of that range
  decompose to themselves); as with the case mappings, a code unit above U+00FF is left
  as it is.
\<close>

definition nfkd_table :: "(nat \<times> jsstring) list" where
  "nfkd_table =
     [(160, [32]), (168, [32, 776]), (170, [97]), (175, [32, 772]), (178, [50]),
      (179, [51]), (180, [32, 769]), (181, [956]), (184, [32, 807]), (185, [49]),
      (186, [111]), (188, [49, 8260, 52]), (189, [49, 8260, 50]), (190, [51, 8260, 52]),
      (192, [65, 768]), (193, [65, 769]), (194, [65, 770]), (195, [65, 771]),
      (196, [65, 776]), (197, [65, 778]), (199, [67, 807]), (200, [69, 768]),
      (201, [69, 769]), (202, [69, 770]), (203, [69, 776]), (204, [73, 768]),
      (205, [73, 769]), (206, [73, 770]), (207, [73, 776]), (209, [78, 771]),
      (210, [79, 768]), (211, [79, 769]), (212, [79, 770]), (213, [79, 771]),
      (214, [79, 776]), (217, [85, 768]), (218, [85, 769]), (219, [85, 770]),
      (220, [85, 776]), (221, [89, 769]), (224, [97, 768]), (225, [97, 769]),
      (226, [97, 770]), (227, [97, 771]), (228, [97, 776]), (229, [97, 778]),
      (231, [99, 807]), (232, [101, 768]), (233, [101, 769]), (234, [101, 770]),
      (235, [101, 776]), (236, [105, 768]), (237, [105, 769]), (238, [105, 770]),
      (239, [105, 776]), (241, [110, 771]), (242, [111, 768]), (243, [111, 769]),
      (244, [111, 770]), (245, [111, 771]), (246, [111, 776]), (249, [117, 768]),
      (250, [117, 769]), (251, [117, 770]), (252, [117, 776]), (253, [121, 769]),
      (255, [121, 776])]"

definition nfkd_unit :: "nat \<Rightarrow> jsstring" where
  "nfkd_unit c = (case map_of nfkd_table c of None \<Rightarrow> [c] | Some d \<Rightarrow> d)"

definition normalizeNFKD :: "jsstring \<Rightarrow> jsstring" where
  "normalizeNFKD s = concat (map nfkd_unit s)"

text \<open>\<open>s.replace(/c/g, r)\<close> for a single code unit \<open>c\<close>.\<close>

definition replace_unit :: "nat \<Rightarrow> jsstring \<Rightarrow> jsstring \<Rightarrow> jsstring" where
  "replace_unit c r s = concat (map (\<lambda>x. if x = c then r else [x]) s)"

text \<open>
  \<open>s.replace(/[...]+/g, " ")\<close>: every maximal run of code units of the class becomes
  one space. The flag tells whether the code unit before was of the class.
\<close>

fun replace_runs :: "(nat \<Rightarrow> bool) \<Rightarrow> bool \<Rightarrow> jsstring \<Rightarrow> jsstring" where
  "replace_runs cls in_run [] = []"
| "replace_runs cls in_run (c # cs) =
     (if cls c then (if in_run then replace_runs cls True cs
                     else 32 # replace_runs cls True cs)
      else c # replace_runs cls False cs)"

definition is_az09 :: "nat \<Rightarrow> bool" where
  "is_az09 c = ((97 \<le> c \<and> c \<le> 122) \<or> (48 \<le> c \<and> c \<le> 57))"

text \<open>
  \<open>normalizeForMatch\<close>: the calls of the chain, the first innermost. \<open>strip_marks\<close>
  is \<open>replace(/[\u0300-\u036f]/g, "")\<close>, \<open>fold_german\<close> the four replacements
  that follow it: the units 228, 246, 252 and 223 are the letters a, o and u with
  diaeresis and the sharp s, which the source file holds as single (precomposed)
  characters.
\<close>

definition strip_marks :: "jsstring \<Rightarrow> jsstring" where
  "strip_marks s = filter (\<lambda>c. \<not> (768 \<le> c \<and> c \<le> 879)) s"

definition fold_german :: "jsstring \<Rightarrow> jsstring" where
  "fold_german s =
     replace_unit 223 (str ''ss'')
       (replace_unit 252 (str ''ue'')
         (replace_unit 246 (str ''oe'')
           (replace_unit 228 (str ''ae'') s)))"

definition normalizeForMatch :: "jsstring \<Rightarrow> jsstring" where
  "normalizeForMatch s =
     trim (replace_runs is_ws False
       (replace_runs (\<lambda>c. \<not> is_az09 c) False
         (fold_german (strip_marks (normalizeNFKD (toLowerCase s))))))"

definition STOPWORDS :: "jsstring list" where
  "STOPWORDS = map str
     [''fc'', ''tsv'', ''sv'', ''sc'', ''sg'', ''jfg'', ''ev'', ''e'', ''v'', ''muenchen'',
      ''munchen'', ''muench'', ''m'', ''ii'', ''iii'', ''iv'', ''i'', ''u'', ''junioren'',
      ''juniorinnen'']"

definition is_digit :: "nat \<Rightarrow> bool" where
  "is_digit c = (48 \<le> c \<and> c \<le> 57)"

text \<open>The test \<open>/^u\d{1,2}$/\<close>: the letter u and one or two digits.\<close>

definition is_age_word :: "jsstring \<Rightarrow> bool" where
  "is_age_word w =
     (case w of
        [u, d] \<Rightarrow> u = 117 \<and> is_digit d
      | [u, d, e] \<Rightarrow> u = 117 \<and> is_digit d \<and> is_digit e
      | _ \<Rightarrow> False)"

text \<open>
  \<open>buildMatchTokens\<close>: \<open>Array.from(new Set(tokens))\<close> keeps the first occurrence of
  each token.
\<close>

definition buildMatchTokens :: "jsstring list \<Rightarrow> jsstring list" where
  "buildMatchTokens names =
     (let tokens =
            concat (map (\<lambda>n. filter (\<lambda>w. w \<noteq> [] \<and> w \<notin> set STOPWORDS \<and>
                                          \<not> is_age_word w \<and> \<not> length w < 3)
                                (js_split (str '' '') (normalizeForMatch n))) names)
      in rev (remdups (rev tokens)))"

text \<open>
  The last resort of \<open>splitHomeAway\<close> is a regular expression: a lazy
  group of any characters, white space, a dash, which is a hyphen (45) or an en dash
  (8211), white space, and a greedy group of any characters up to the end. \<open>dash_rest s\<close> matches everything behind the
  first group at the start of \<open>s\<close> and returns the second group: white space, of which
  the longest run must be taken for a dash to follow, the dash, white space again, and
  the rest up to the end, in which \<open>.\<close> meets no line terminator. \<open>dash_split pre s\<close>
  tries the first group, which is lazy, at its shortest first and lengthens it by one
  code unit that is no line terminator.
\<close>

definition dash_rest :: "jsstring \<Rightarrow> jsstring option" where
  "dash_rest s =
     (case dropWhile is_ws s of
        [] \<Rightarrow> None
      | d # r \<Rightarrow>
          if d = 45 \<or> d = 8211 then
            (let m2 = dropWhile is_ws r
             in if list_ex is_line_terminator m2 then None else Some m2)
          else None)"

fun dash_split :: "jsstring \<Rightarrow> jsstring \<Rightarrow> (jsstring \<times> jsstring) option" where
  "dash_split pre [] = (case dash_rest [] of None \<Rightarrow> None | Some m2 \<Rightarrow> Some (pre, m2))"
| "dash_split pre (c # cs) =
     (case dash_rest (c # cs) of
        Some m2 \<Rightarrow> Some (pre, m2)
      | None \<Rightarrow> if is_line_terminator c then None else dash_split (pre @ [c]) cs)"

text \<open>
  \<open>const [l, r] = teamPart.split(sep)\<close> followed by \<open>if (l && r) return ...\<close>: the first
  two pieces, when both are there and not empty.
\<close>

definition split_sides :: "jsstring \<Rightarrow> jsstring \<Rightarrow> (jsstring \<times> jsstring) option" where
  "split_sides sep teamPart =
     (case js_split sep teamPart of
        l # r # _ \<Rightarrow> if l \<noteq> [] \<and> r \<noteq> [] then Some (trim l, trim r) else None
      | _ \<Rightarrow> None)"

definition splitHomeAway :: "jsstring \<Rightarrow> (jsstring \<times> jsstring) option" where
  "splitHomeAway summary =
     (let first = (case js_split (str '','') summary of [] \<Rightarrow> [] | p # _ \<Rightarrow> p);
          teamPart = (if first \<noteq> [] then first else summary);
          hyphen = (if js_includes teamPart (str '' - '')
                    then split_sides (str '' - '') teamPart else None);
          endash = (if js_includes teamPart [32, 8211, 32]
                    then split_sides [32, 8211, 32] teamPart else None)
      in case hyphen of
           Some lr \<Rightarrow> Some lr
         | None \<Rightarrow>
             (case endash of
                Some lr \<Rightarrow> Some lr
              | None \<Rightarrow>
                  (case dash_split [] teamPart of
                     Some (m1, m2) \<Rightarrow>
                       if m1 \<noteq> [] \<and> m2 \<noteq> [] then Some (trim m1, trim m2) else None
                   | None \<Rightarrow> None)))"

text \<open>
  The function that \<open>loadGames\<close> maps over the parsed games; \<open>tokens\<close> is
  \<open>buildMatchTokens(clubName, teamName)\<close>.
\<close>

definition matchSide :: "jsstring list \<Rightarrow> jsstring \<Rightarrow> bool" where
  "matchSide tokens s =
     (let norm = normalizeForMatch s
      in if tokens \<noteq> [] then list_ex (\<lambda>t. js_includes norm t) tokens else False)"

definition classify :: "jsstring list \<Rightarrow> IcsGame \<Rightarrow> IcsGame" where
  "classify tokens g =
     (let parts = splitHomeAway (g_summary g);
          locNorm = normalizeForMatch (case g_location g of None \<Rightarrow> [] | Some l \<Rightarrow> l);
          isHome =
            (case parts of
               Some (left, right) \<Rightarrow>
                 (let leftMatch = matchSide tokens left;
                      rightMatch = matchSide tokens right
                  in if leftMatch \<and> \<not> rightMatch then Some True
                     else if rightMatch \<and> \<not> leftMatch then Some False
                     else if leftMatch \<and> rightMatch then Some True
                     else None)
             | None \<Rightarrow>
                 if tokens \<noteq> [] \<and> list_ex (\<lambda>t. js_includes locNorm t) tokens
                 then Some True else None)
      in g\<lparr>g_isHome := isHome\<rparr>)"

section \<open>The calendar parser\<close>

text \<open>\<open>raw.replace(/\r\n/g, "\n")\<close>; 13 is CR and 10 is LF.\<close>

fun replace_crlf :: "jsstring \<Rightarrow> jsstring" where
  "replace_crlf [] = []"
| "replace_crlf [c] = [c]"
| "replace_crlf (c # d # cs) =
     (if c = 13 \<and> d = 10 then 10 # replace_crlf cs else c # replace_crlf (d # cs))"

text \<open>The test \<open>/^[ \t]/\<close>: the line starts with a space (32) or a tab (9).\<close>

definition starts_blank :: "jsstring \<Rightarrow> bool" where
  "starts_blank line = (case line of [] \<Rightarrow> False | c # _ \<Rightarrow> c = 32 \<or> c = 9)"

fun unfold_loop :: "jsstring list \<Rightarrow> jsstring list \<Rightarrow> jsstring list" where
  "unfold_loop out [] = out"
| "unfold_loop out (line # lines) =
     (if starts_blank line \<and> out \<noteq> []
      then unfold_loop (butlast out @ [last out @ trimStart line]) lines
      else unfold_loop (out @ [line]) lines)"

definition unfoldIcsLines :: "jsstring \<Rightarrow> jsstring list" where
  "unfoldIcsLines raw = unfold_loop [] (js_split [10] (replace_crlf raw))"

text \<open>
  Time values. \<open>Date.UTC\<close> and the \<open>Date\<close> constructor read a year from 0 to 99 as
  1900 plus that year; the day number of the first of a month is computed on the
  proleptic Gregorian calendar with years that start in March, a month index outside 0
  to 11 being carried into the year. With the four-digit years and two-digit fields that
  \<open>parseDt\<close> passes, the time value is always within the range of a \<open>Date\<close>.
\<close>

definition full_year :: "int \<Rightarrow> int" where
  "full_year y = (if 0 \<le> y \<and> y \<le> 99 then 1900 + y else y)"

definition MakeDay :: "int \<Rightarrow> int \<Rightarrow> int \<Rightarrow> int" where
  "MakeDay year month date =
     (let ym = year + month div 12;
          mn = month mod 12;
          y = (if mn < 2 then ym - 1 else ym);
          era = y div 400;
          yoe = y mod 400;
          mp = (mn + 10) mod 12;
          doy = (153 * mp + 2) div 5;
          doe = yoe * 365 + yoe div 4 - yoe div 100 + doy
      in era * 146097 + doe - 719468 + date - 1)"

definition MakeTime :: "int \<Rightarrow> int \<Rightarrow> int \<Rightarrow> int" where
  "MakeTime hour minute sec = hour * 3600000 + minute * 60000 + sec * 1000"

definition MakeDate :: "int \<Rightarrow> int \<Rightarrow> int" where
  "MakeDate day time = day * 86400000 + time"

definition Date_UTC :: "int \<Rightarrow> int \<Rightarrow> int \<Rightarrow> int \<Rightarrow> int \<Rightarrow> int \<Rightarrow> int" where
  "Date_UTC y m d h mi s = MakeDate (MakeDay (full_year y) m d) (MakeTime h mi s)"

text \<open>
  \<open>+Y\<close> on a string of digits. \<open>parseDt\<close> matches
  \<open>/^(\d{4})(\d{2})(\d{2})T(\d{2})(\d{2})(\d{2})(Z)?$/\<close>; 84 is T and 90 is Z. Without
  the Z the constructor \<open>new Date(y, m, d, h, mi, s)\<close> takes the fields for local time;
  \<open>tz\<close> is the host's conversion of a local time value to UTC.
\<close>

definition digits_val :: "jsstring \<Rightarrow> int" where
  "digits_val ds = foldl (\<lambda>a c. 10 * a + (int c - 48)) 0 ds"

definition parseDt :: "(int \<Rightarrow> int) \<Rightarrow> jsstring \<Rightarrow> int option" where
  "parseDt tz v =
     (if (length v = 15 \<or> length v = 16 \<and> drop 15 v = [90])
         \<and> list_all is_digit (take 8 v) \<and> take 1 (drop 8 v) = [84]
         \<and> list_all is_digit (take 6 (drop 9 v))
      then
        (let Y = digits_val (take 4 v);
             Mo = digits_val (take 2 (drop 4 v));
             D = digits_val (take 2 (drop 6 v));
             H = digits_val (take 2 (drop 9 v));
             Mi = digits_val (take 2 (drop 11 v));
             S = digits_val (take 2 (drop 13 v))
         in if drop 15 v \<noteq> [] then Some (Date_UTC Y (Mo - 1) D H Mi S)
            else Some (tz (Date_UTC Y (Mo - 1) D H Mi S)))
      else None)"

text \<open>
  The variables of \<open>parseIcs\<close>. \<open>emit\<close> is the game that the end of an event pushes,
  under the test \<open>inEvent && uid && summary && dtStart && dtEnd\<close>; a \<open>Date\<close> is an
  object and so never falsy.
\<close>

record parse_state =
  inEvent :: bool
  uid :: jsstring
  summary :: jsstring
  location :: jsstring
  dtStart :: "int option"
  dtEnd :: "int option"
  games :: "IcsGame list"

definition parse_init :: parse_state where
  "parse_init = \<lparr>inEvent = False, uid = [], summary = [], location = [],
                  dtStart = None, dtEnd = None, games = []\<rparr>"

definition emit :: "parse_state \<Rightarrow> IcsGame option" where
  "emit st =
     (case (dtStart st, dtEnd st) of
        (Some s, Some e) \<Rightarrow>
          if inEvent st \<and> uid st \<noteq> [] \<and> summary st \<noteq> [] then
            Some \<lparr>g_uid = uid st, g_summary = summary st, g_start = s, g_end = e,
                  g_location = (if location st \<noteq> [] then Some (location st) else None),
                  g_isHome = None\<rparr>
          else None
      | _ \<Rightarrow> None)"

text \<open>\<open>line.split(":").slice(1).join(":").trim()\<close>; 58 is the colon.\<close>

definition after_colon :: "jsstring \<Rightarrow> jsstring" where
  "after_colon line = trim (js_join [58] (drop 1 (js_split [58] line)))"

text \<open>The body of the loop over the unfolded lines.\<close>

definition parse_line :: "(int \<Rightarrow> int) \<Rightarrow> parse_state \<Rightarrow> jsstring \<Rightarrow> parse_state" where
  "parse_line tz st line =
     (if prefix (str ''BEGIN:VEVENT'') line then
        st\<lparr>inEvent := True, uid := [], summary := [], location := [],
           dtStart := None, dtEnd := None\<rparr>
      else if prefix (str ''END:VEVENT'') line then
        st\<lparr>games := (case emit st of None \<Rightarrow> games st | Some g \<Rightarrow> games st @ [g]),
           inEvent := False\<rparr>
      else if \<not> inEvent st then st
      else if prefix (str ''UID:'') line then st\<lparr>uid := trim (drop 4 line)\<rparr>
      else if prefix (str ''SUMMARY:'') line then st\<lparr>summary := trim (drop 8 line)\<rparr>
      else if prefix (str ''LOCATION:'') line then st\<lparr>location := trim (drop 9 line)\<rparr>
      else if prefix (str ''DTSTART'') line then st\<lparr>dtStart := parseDt tz (after_colon line)\<rparr>
      else if prefix (str ''DTEND'') line then st\<lparr>dtEnd := parseDt tz (after_colon line)\<rparr>
      else st)"

definition parse_lines :: "(int \<Rightarrow> int) \<Rightarrow> jsstring list \<Rightarrow> IcsGame list" where
  "parse_lines tz lines = games (foldl (parse_line tz) parse_init lines)"

definition parseIcs :: "(int \<Rightarrow> int) \<Rightarrow> jsstring \<Rightarrow> IcsGame list" where
  "parseIcs tz icsText = parse_lines tz (unfoldIcsLines icsText)"

section \<open>Booking and undoing\<close>

text \<open>
  The component state that \<open>bookApproved\<close> and \<open>undoBooking\<close> read and write, together
  with the table of bookings behind the store. \<open>games_st\<close>, \<open>range_st\<close> and
  \<open>error_st\<close> are the state variables \<open>games\<close>, \<open>range\<close> and \<open>error\<close>; of the
  selected team only the name and the age class are read. An entry of
  \<open>selectedPitchByUid\<close> is a pitch id or the empty string, here \<open>None\<close>. A handler is
  taken to run on the state as it is when it is called.
\<close>

record Team =
  t_id :: nat
  t_name :: jsstring
  t_age_u :: int

record BfvTeam =
  bt_name :: jsstring
  bt_age_u :: "int option"

datatype failure = SessionMissing | NoLocalTeam | InsertRejected | SelectFailed | DeleteFailed

record page =
  db :: "Booking list"
  db_next :: nat
  pitches :: "Pitch list"
  teams :: "Team list"
  selectedBfvTeam :: "BfvTeam option"
  bookings :: "Booking list"
  games_st :: "IcsGame list"
  range_st :: "(int \<times> int) option"
  bookedMap :: "nat jsobject"
  bookedPitchByUid :: "nat jsobject"
  selectedPitchByUid :: "(nat option) jsobject"
  error_st :: "failure option"

text \<open>
  What the handlers get from outside: the user of the session, if there is one, and the
  answers of the store. Modelled from the spec: the booking store, which is not part of
  the sources (section 6: query by time range, insert that returns the new identifier or
  a constraint-violation failure, delete by id). The insert appends the row under a
  fresh id when \<open>store_accepts\<close> admits it for the table as it is; the query returns the
  rows in the order of the table.
\<close>

record env =
  session_user :: "nat option"
  store_accepts :: "Booking list \<Rightarrow> Booking \<Rightarrow> bool"
  select_fails :: bool
  delete_fails :: bool

text \<open>
  \<open>loadBookingsForRange\<close>: the query \<open>.gte("start_at", startISO).lt("end_at", endISO)\<close>,
  then the new list and the two maps; a failed query is thrown.
\<close>

definition loadBookingsForRange :: "env \<Rightarrow> page \<Rightarrow> int \<Rightarrow> int \<Rightarrow> failure + page" where
  "loadBookingsForRange e w rangeStart rangeEnd =
     (if select_fails e then Inl SelectFailed
      else
        (let list = filter (\<lambda>b. rangeStart \<le> b_start_at b \<and> b_end_at b < rangeEnd) (db w)
         in Inr (w\<lparr>bookings := list,
                   bookedMap := uidToBookingId list,
                   bookedPitchByUid := uidToPitchId list\<rparr>)))"

definition resolveLocalTeamId :: "page \<Rightarrow> nat option" where
  "resolveLocalTeamId w =
     (let targetAge = (case selectedBfvTeam w of None \<Rightarrow> None | Some t \<Rightarrow> bt_age_u t);
          best = (case targetAge of
                    None \<Rightarrow> None
                  | Some a \<Rightarrow> find (\<lambda>t. t_age_u t = a) (teams w))
      in case best of
           Some t \<Rightarrow> Some (t_id t)
         | None \<Rightarrow>
             (let bfvName = toLowerCase (case selectedBfvTeam w of None \<Rightarrow> []
                                         | Some t \<Rightarrow> bt_name t)
              in case find (\<lambda>t. js_includes (toLowerCase (t_name t)) bfvName) (teams w) of
                   None \<Rightarrow> None
                 | Some t \<Rightarrow> Some (t_id t)))"

text \<open>The row that \<open>bookApproved\<close> inserts.\<close>

definition book_row :: "nat \<Rightarrow> IcsGame \<Rightarrow> nat \<Rightarrow> nat \<Rightarrow> nat \<Rightarrow> Booking" where
  "book_row new_id game pitchId localTeamId user =
     \<lparr>b_id = new_id, b_start_at = g_start game, b_end_at = g_end game,
      b_status = str ''APPROVED'', b_note = Some (book_note game),
      b_team_id = localTeamId, b_pitch_id = pitchId, b_created_by = Some user\<rparr>"

definition bookApproved :: "env \<Rightarrow> page \<Rightarrow> IcsGame \<Rightarrow> nat \<Rightarrow> page" where
  "bookApproved e w game pitchId =
     (case session_user e of
        None \<Rightarrow> w\<lparr>error_st := Some SessionMissing\<rparr>
      | Some user \<Rightarrow>
          (case resolveLocalTeamId w of
             None \<Rightarrow> w\<lparr>error_st := Some NoLocalTeam\<rparr>
           | Some localTeamId \<Rightarrow>
               (let row = book_row (db_next w) game pitchId localTeamId user
                in if \<not> store_accepts e (db w) row then w\<lparr>error_st := Some InsertRejected\<rparr>
                   else
                     (let w1 = w\<lparr>error_st := None, db := db w @ [row],
                                 db_next := Suc (db_next w)\<rparr>
                      in case (case range_st w1 of
                                 None \<Rightarrow> Inr w1
                               | Some (rs, re) \<Rightarrow> loadBookingsForRange e w1 rs re) of
                           Inl err \<Rightarrow> w1\<lparr>error_st := Some err\<rparr>
                         | Inr w2 \<Rightarrow>
                             w2\<lparr>selectedPitchByUid :=
                                  (selectedPitchByUid w2)(g_uid game \<mapsto> Some pitchId),
                                bookedMap := (bookedMap w2)(g_uid game \<mapsto> b_id row),
                                bookedPitchByUid :=
                                  (bookedPitchByUid w2)(g_uid game \<mapsto> pitchId)\<rparr>))))"

text \<open>
  The two deletions at the end of \<open>undoBooking\<close>, and \<open>undoBooking\<close> itself. It
  returns at once only when \<open>bookedMap[gameUid]\<close> is falsy. When the lookup is an
  inherited value, which is the id of no row, the delete finds no row to delete.
\<close>

definition forget :: "page \<Rightarrow> jsstring \<Rightarrow> page" where
  "forget w gameUid =
     w\<lparr>bookedMap := (bookedMap w)(gameUid := None),
       bookedPitchByUid := (bookedPitchByUid w)(gameUid := None)\<rparr>"

definition undoBooking :: "env \<Rightarrow> page \<Rightarrow> jsstring \<Rightarrow> page" where
  "undoBooking e w gameUid =
     (case js_get (bookedMap w) gameUid of
        Undefined \<Rightarrow> w
      | found \<Rightarrow>
          if delete_fails e then w\<lparr>error_st := Some DeleteFailed\<rparr>
          else
            (let w1 = w\<lparr>error_st := None,
                        db := (case found of
                                 Own bookingId \<Rightarrow> filter (\<lambda>b. b_id b \<noteq> bookingId) (db w)
                               | _ \<Rightarrow> db w)\<rparr>
             in case range_st w1 of
                  None \<Rightarrow> forget w1 gameUid
                | Some (rs, re) \<Rightarrow>
                    (case loadBookingsForRange e w1 rs re of
                       Inl err \<Rightarrow> w1\<lparr>error_st := Some err\<rparr>
                     | Inr w2 \<Rightarrow>
                         (case find (\<lambda>x. g_uid x = gameUid) (games_st w2) of
                            None \<Rightarrow> forget w2 gameUid
                          | Some g \<Rightarrow>
                              (let avail = getAvailablePitches (pitches w2)
                                     (case selectedBfvTeam w2 of None \<Rightarrow> None
                                      | Some t \<Rightarrow> bt_age_u t) g (bookings w2)
                               in forget
                                    (w2\<lparr>selectedPitchByUid := (selectedPitchByUid w2)
                                          (gameUid \<mapsto> (case avail of [] \<Rightarrow> None
                                                        | p # _ \<Rightarrow> Some (p_id p)))\<rparr>)
                                    gameUid)))))"

text \<open>
  What a row of the table of the page offers for a game, from the markup at the end of
  the component: \<open>isBooked\<close> is \<open>!!bookedMap[g.uid]\<close>; a booked game gets the button
  that calls \<open>undoBooking(g.uid)\<close>, any other game the button that calls
  \<open>bookApproved(g, selectedPitch)\<close>, which is disabled when no pitch is free. The
  selected pitch is \<open>selectedPitchByUid[g.uid]\<close> or, when that is falsy, the first free
  pitch. Where the game is not booked its id is no inherited name (the lookup in
  \<open>bookedMap\<close> would be truthy), so that the lookup in \<open>selectedPitchByUid\<close> is the
  own property or undefined. Between two runs of a handler no game is busy.
\<close>

datatype action = OfferUndo | OfferBook nat | BookDisabled

definition isBooked :: "page \<Rightarrow> IcsGame \<Rightarrow> bool" where
  "isBooked w g = (js_get (bookedMap w) (g_uid g) \<noteq> Undefined)"

definition row_action :: "page \<Rightarrow> IcsGame \<Rightarrow> action" where
  "row_action w g =
     (if isBooked w g then OfferUndo
      else
        (case getAvailablePitches (pitches w)
                (case selectedBfvTeam w of None \<Rightarrow> None | Some t \<Rightarrow> bt_age_u t)
                g (bookings w) of
           [] \<Rightarrow> BookDisabled
         | p # _ \<Rightarrow>
             (case selectedPitchByUid w (g_uid g) of
                Some (Some selected) \<Rightarrow> OfferBook selected
              | _ \<Rightarrow> OfferBook (p_id p))))"

text \<open>The bookings of a table that are linked to a fixture id.\<close>

definition linked :: "jsstring \<Rightarrow> Booking list \<Rightarrow> Booking list" where
  "linked u rows = filter (\<lambda>b. findBfvUid (b_note b) = Some u) rows"

text \<open>
  For the properties of the parser: \<open>run\<close> is the loop from a given state,
  \<open>record_fields\<close> the variables after the lines between the begin and the end of one
  event, and \<open>same_fields\<close> relates two states that the loop cannot tell apart: outside
  an event the variables are not read before the next begin resets them.
\<close>

definition run :: "(int \<Rightarrow> int) \<Rightarrow> parse_state \<Rightarrow> jsstring list \<Rightarrow> parse_state" where
  "run tz st lines = foldl (parse_line tz) st lines"

definition record_fields :: "(int \<Rightarrow> int) \<Rightarrow> jsstring list \<Rightarrow> parse_state" where
  "record_fields tz body = run tz (parse_init\<lparr>inEvent := True\<rparr>) body"

definition same_fields :: "parse_state \<Rightarrow> parse_state \<Rightarrow> bool" where
  "same_fields s t =
     (inEvent s = inEvent t \<and>
      (inEvent s \<longrightarrow> uid s = uid t \<and> summary s = summary t \<and> location s = location t \<and>
                     dtStart s = dtStart t \<and> dtEnd s = dtEnd t))"

text \<open>
  \<open>from_line tz L key v\<close>: the time value \<open>v\<close> is what \<open>parseDt\<close> reads from a line of
  \<open>L\<close> that starts with \<open>key\<close>. \<open>parse_inv\<close> is the invariant of the loop over lines
  of \<open>L\<close>: every game pushed so far has an identifier and a summary that are not empty
  and a start and an end read from such lines, and so have the two variables that hold
  a time value.
\<close>

definition from_line :: "(int \<Rightarrow> int) \<Rightarrow> jsstring set \<Rightarrow> jsstring \<Rightarrow> int \<Rightarrow> bool" where
  "from_line tz L key v = (\<exists>l \<in> L. prefix key l \<and> parseDt tz (after_colon l) = Some v)"

definition complete_game :: "(int \<Rightarrow> int) \<Rightarrow> jsstring set \<Rightarrow> IcsGame \<Rightarrow> bool" where
  "complete_game tz L g =
     (g_uid g \<noteq> [] \<and> g_summary g \<noteq> [] \<and>
      from_line tz L (str ''DTSTART'') (g_start g) \<and>
      from_line tz L (str ''DTEND'') (g_end g))"

definition parse_inv :: "(int \<Rightarrow> int) \<Rightarrow> jsstring set \<Rightarrow> parse_state \<Rightarrow> bool" where
  "parse_inv tz L st =
     ((\<forall>g \<in> set (games st). complete_game tz L g) \<and>
      (\<forall>s. dtStart st = Some s \<longrightarrow> from_line tz L (str ''DTSTART'') s) \<and>
      (\<forall>e. dtEnd st = Some e \<longrightarrow> from_line tz L (str ''DTEND'') e))"

text \<open>
  Modelled from the spec: the overlap constraint of the store (section 6: the store is
  assumed to enforce overlap constraints as a backstop; the hint under the table of the
  page speaks of the overlap error of an exclusion constraint). It admits a row when no
  row of the table is on the same pitch with an overlapping interval. It serves as the
  store of the example in which two bookings are made for one game.
\<close>

definition exclusion_constraint :: "Booking list \<Rightarrow> Booking \<Rightarrow> bool" where
  "exclusion_constraint rows r =
     (\<not> list_ex (\<lambda>b. b_pitch_id b = b_pitch_id r \<and>
                       overlaps (b_start_at b) (b_end_at b) (b_start_at r) (b_end_at r)) rows)"

text \<open>
  An example: one game from 10 to 20, two pitches, a local team of the age class of the
  selected team, an empty table behind a store with the overlap constraint, and the range
  that \<open>loadGames\<close> sets for this one game.
\<close>

definition demo_game :: IcsGame where
  "demo_game = \<lparr>g_uid = str ''a'', g_summary = str ''A - B'', g_start = 10, g_end = 20,
                 g_location = None, g_isHome = Some True\<rparr>"

definition demo_env :: env where
  "demo_env = \<lparr>session_user = Some 9, store_accepts = exclusion_constraint,
                select_fails = False, delete_fails = False\<rparr>"

definition demo_page :: page where
  "demo_page =
     \<lparr>db = [], db_next = 40,
      pitches = [\<lparr>p_id = 2, p_name = str ''Rechts'', p_type = GROSSFELD\<rparr>,
                 \<lparr>p_id = 3, p_name = str ''Mitte'', p_type = GROSSFELD\<rparr>],
      teams = [\<lparr>t_id = 5, t_name = str ''U14'', t_age_u = 14\<rparr>],
      selectedBfvTeam = Some \<lparr>bt_name = str ''U14'', bt_age_u = Some 14\<rparr>,
      bookings = [], games_st = [demo_game], range_st = Some (10, 20),
      bookedMap = Map.empty, bookedPitchByUid = Map.empty,
      selectedPitchByUid = Map.empty, error_st = None\<rparr>"


text \<open>
  \<open>opener_at s\<close>: the text \<open>[BFV_UID:\<close>, in any case of its letters, stands at the
  start of \<open>s\<close> and is not followed by \<open>]\<close>. \<open>has_opener s\<close>: it does so somewhere in
  \<open>s\<close>.
\<close>

definition opener_at :: "jsstring \<Rightarrow> bool" where
  "opener_at s =
     (case match_ci (str ''[BFV_UID:'') s of
        None \<Rightarrow> False
      | Some rest \<Rightarrow> (case rest of [] \<Rightarrow> True | c # _ \<Rightarrow> c \<noteq> 93))"

fun has_opener :: "jsstring \<Rightarrow> bool" where
  "has_opener [] = opener_at []"
| "has_opener (c # cs) = (opener_at (c # cs) \<or> has_opener cs)"

section \<open>Properties of the availability computation\<close>

lemma upper_APPROVED: "toUpperCase (str ''APPROVED'') = str ''APPROVED''"
  by (simp add: toUpperCase_def upper_unit_def str_def)

lemma APPROVED_blocking: "str ''APPROVED'' \<in> BLOCKING_STATUSES"
  by (simp add: BLOCKING_STATUSES_def)

lemma available_iff:
  "p \<in> set (getAvailablePitches inventory ageU game bookingsList) \<longleftrightarrow>
   p \<in> set (allowedPitchesForAge inventory ageU) \<and>
   \<not> (\<exists>b \<in> set bookingsList. toUpperCase (b_status b) \<in> BLOCKING_STATUSES \<and>
          b_pitch_id b = p_id p \<and>
          overlaps (g_start game) (g_end game) (b_start_at b) (b_end_at b))"
  by (auto simp add: getAvailablePitches_def Let_def list_ex_iff)

lemma available_skip:
  assumes "toUpperCase (b_status b) \<notin> BLOCKING_STATUSES \<or>
           \<not> overlaps (g_start game) (g_end game) (b_start_at b) (b_end_at b)"
  shows "getAvailablePitches inventory ageU game (b # bs) = getAvailablePitches inventory ageU game bs"
  using assms by (auto simp add: getAvailablePitches_def Let_def intro!: filter_cong)

lemma upper_unit_capital:
  assumes "upper_unit c = x # r" and "65 \<le> x \<and> x \<le> 90"
  shows "(canon c = x \<and> r = []) \<or> (x = 83 \<and> r = [83])"
  using assms by (auto simp add: upper_unit_def canon_def split: if_splits)

lemma upper_imp_canon:
  "toUpperCase s = t \<Longrightarrow> \<forall>x \<in> set t. 65 \<le> x \<and> x \<le> 90 \<Longrightarrow> \<not> js_includes t [83, 83] \<Longrightarrow>
   map canon s = t"
proof (induction s arbitrary: t)
  case Nil
  then show ?case by (simp add: toUpperCase_def)
next
  case (Cons c cs)
  from Cons.prems(1) have split: "upper_unit c @ toUpperCase cs = t"
    by (simp add: toUpperCase_def)
  have "upper_unit c \<noteq> []"
    by (simp add: upper_unit_def)
  then obtain x r where xr: "upper_unit c = x # r"
    by (cases "upper_unit c") auto
  with split have t: "t = x # r @ toUpperCase cs"
    by simp
  then have "65 \<le> x \<and> x \<le> 90"
    using Cons.prems(2) by simp
  with xr have "(canon c = x \<and> r = []) \<or> (x = 83 \<and> r = [83])"
    by (rule upper_unit_capital)
  moreover have "\<not> (x = 83 \<and> r = [83])"
    using t Cons.prems(3) by auto
  ultimately have c: "canon c = x" and "r = []"
    by blast+
  with t have t': "t = x # toUpperCase cs"
    by simp
  have "map canon cs = toUpperCase cs"
    using Cons.IH [of "toUpperCase cs"] Cons.prems(2,3) t' by auto
  then show ?case
    using c t' by simp
qed

lemma canon_imp_upper:
  "map canon s = t \<Longrightarrow> \<forall>x \<in> set t. 65 \<le> x \<and> x \<le> 90 \<Longrightarrow> toUpperCase s = t"
proof (induction s arbitrary: t)
  case Nil
  then show ?case by (simp add: toUpperCase_def)
next
  case (Cons c cs)
  then obtain t' where t: "t = canon c # t'" and t': "map canon cs = t'"
    by auto
  have "65 \<le> canon c \<and> canon c \<le> 90"
    using Cons.prems(2) t by simp
  then have "upper_unit c = [canon c]"
    by (auto simp add: upper_unit_def canon_def split: if_splits)
  moreover have "toUpperCase cs = t'"
    using Cons.IH [OF t'] Cons.prems(2) t by simp
  ultimately show ?case
    using t by (simp add: toUpperCase_def)
qed

lemma status_words:
  "\<forall>x \<in> set (str ''REQUESTED''). 65 \<le> x \<and> x \<le> 90"
  "\<forall>x \<in> set (str ''APPROVED''). 65 \<le> x \<and> x \<le> 90"
  "\<forall>x \<in> set (str ''REJECTED''). 65 \<le> x \<and> x \<le> 90"
  "\<not> js_includes (str ''REQUESTED'') [83, 83]"
  "\<not> js_includes (str ''APPROVED'') [83, 83]"
  "str ''REJECTED'' \<noteq> str ''REQUESTED''"
  "str ''REJECTED'' \<noteq> str ''APPROVED''"
  by (simp_all add: str_def)

lemma upper_status_iff:
  "toUpperCase s = str ''REQUESTED'' \<longleftrightarrow> map canon s = str ''REQUESTED''"
  "toUpperCase s = str ''APPROVED'' \<longleftrightarrow> map canon s = str ''APPROVED''"
  using upper_imp_canon [of s "str ''REQUESTED''"] canon_imp_upper [of s "str ''REQUESTED''"]
    upper_imp_canon [of s "str ''APPROVED''"] canon_imp_upper [of s "str ''APPROVED''"]
    status_words
  by blast+

lemma blocking_iff:
  "toUpperCase s \<in> BLOCKING_STATUSES \<longleftrightarrow>
     map canon s = str ''REQUESTED'' \<or> map canon s = str ''APPROVED''"
  by (simp add: BLOCKING_STATUSES_def upper_status_iff)

lemma rejected_not_blocking:
  assumes "map canon s = str ''REJECTED''"
  shows "toUpperCase s \<notin> BLOCKING_STATUSES"
  using assms status_words(6,7) by (simp add: blocking_iff)

text \<open>
  Claim C2, as the code has it. The result holds only pitches that pass the filter by
  age, so a pitch can be missing from it without any booking: that is the
  counterexample, a pitch of type KOMPAKT for the age class 14 and an empty list of
  bookings. For a pitch that passes the filter by age the claim holds: it is left out of
  the result exactly when the list holds a booking on that pitch whose status is
  \<open>requested\<close> or \<open>approved\<close> and whose interval meets the game's in the half-open
  sense, game start before booking end and booking start before game end. The status is
  compared in upper case: for statuses of Latin-1 text that is \<open>requested\<close> or
  \<open>approved\<close> in any case of the letters (first part); for any text it is the test of
  the code, that the upper-cased status is \<open>REQUESTED\<close> or \<open>APPROVED\<close> (second
  part). A booking that ends at the very start of the game changes nothing in the
  result, and neither does a booking whose status is \<open>rejected\<close>, in any case of the
  letters and whatever its interval.
\<close>

theorem availability_excludes_iff_blocked:
  "(p \<in> set (allowedPitchesForAge inventory ageU) \<and>
    (\<forall>b \<in> set bookingsList. \<forall>c \<in> set (b_status b). c < 256) \<longrightarrow>
      (p \<notin> set (getAvailablePitches inventory ageU game bookingsList)) =
      (\<exists>b \<in> set bookingsList.
          b_pitch_id b = p_id p \<and>
          (map canon (b_status b) = str ''REQUESTED'' \<or>
           map canon (b_status b) = str ''APPROVED'') \<and>
          g_start game < b_end_at b \<and> b_start_at b < g_end game))
   \<and> (p \<in> set (allowedPitchesForAge inventory ageU) \<longrightarrow>
      (p \<notin> set (getAvailablePitches inventory ageU game bookingsList)) =
      (\<exists>b \<in> set bookingsList.
          b_pitch_id b = p_id p \<and>
          (toUpperCase (b_status b) = str ''REQUESTED'' \<or>
           toUpperCase (b_status b) = str ''APPROVED'') \<and>
          g_start game < b_end_at b \<and> b_start_at b < g_end game))
   \<and> (b_end_at b = g_start game \<longrightarrow>
        getAvailablePitches inventory ageU game (b # bookingsList) =
        getAvailablePitches inventory ageU game bookingsList)
   \<and> (map canon (b_status b) = str ''REJECTED'' \<longrightarrow>
        getAvailablePitches inventory ageU game (b # bookingsList) =
        getAvailablePitches inventory ageU game bookingsList)"
proof (intro conjI impI)
  assume "p \<in> set (allowedPitchesForAge inventory ageU) \<and>
    (\<forall>b \<in> set bookingsList. \<forall>c \<in> set (b_status b). c < 256)"
  then show "(p \<notin> set (getAvailablePitches inventory ageU game bookingsList)) =
      (\<exists>b \<in> set bookingsList.
          b_pitch_id b = p_id p \<and>
          (map canon (b_status b) = str ''REQUESTED'' \<or>
           map canon (b_status b) = str ''APPROVED'') \<and>
          g_start game < b_end_at b \<and> b_start_at b < g_end game)"
    by (auto simp add: available_iff overlaps_def blocking_iff)
next
  assume "p \<in> set (allowedPitchesForAge inventory ageU)"
  then show "(p \<notin> set (getAvailablePitches inventory ageU game bookingsList)) =
      (\<exists>b \<in> set bookingsList.
          b_pitch_id b = p_id p \<and>
          (toUpperCase (b_status b) = str ''REQUESTED'' \<or>
           toUpperCase (b_status b) = str ''APPROVED'') \<and>
          g_start game < b_end_at b \<and> b_start_at b < g_end game)"
    by (auto simp add: available_iff overlaps_def BLOCKING_STATUSES_def)
next
  assume "b_end_at b = g_start game"
  then have "\<not> overlaps (g_start game) (g_end game) (b_start_at b) (b_end_at b)"
    by (simp add: overlaps_def)
  then show "getAvailablePitches inventory ageU game (b # bookingsList) =
        getAvailablePitches inventory ageU game bookingsList"
    by (simp add: available_skip)
next
  assume "map canon (b_status b) = str ''REJECTED''"
  then have "toUpperCase (b_status b) \<notin> BLOCKING_STATUSES"
    by (rule rejected_not_blocking)
  then show "getAvailablePitches inventory ageU game (b # bookingsList) =
        getAvailablePitches inventory ageU game bookingsList"
    by (simp add: available_skip)
qed

theorem availability_excludes_iff_blocked_witness:
  "\<lparr>p_id = 2, p_name = str ''A'', p_type = KOMPAKT\<rparr>
      \<notin> set (getAvailablePitches [\<lparr>p_id = 2, p_name = str ''A'', p_type = KOMPAKT\<rparr>] None
          \<lparr>g_uid = str ''u'', g_summary = str ''s'', g_start = 10, g_end = 20,
           g_location = None, g_isHome = None\<rparr>
          [\<lparr>b_id = 7, b_start_at = 19, b_end_at = 30, b_status = str ''Requested'',
            b_note = None, b_team_id = 5, b_pitch_id = 2, b_created_by = None\<rparr>])
   \<and> getAvailablePitches [\<lparr>p_id = 2, p_name = str ''A'', p_type = KOMPAKT\<rparr>] None
          \<lparr>g_uid = str ''u'', g_summary = str ''s'', g_start = 10, g_end = 20,
           g_location = None, g_isHome = None\<rparr>
          [\<lparr>b_id = 8, b_start_at = 0, b_end_at = 30, b_status = str ''rejected'',
            b_note = None, b_team_id = 5, b_pitch_id = 2, b_created_by = None\<rparr>]
     = [\<lparr>p_id = 2, p_name = str ''A'', p_type = KOMPAKT\<rparr>]"
proof -
  let ?p = "\<lparr>p_id = 2, p_name = str ''A'', p_type = KOMPAKT\<rparr>"
  let ?g = "\<lparr>g_uid = str ''u'', g_summary = str ''s'', g_start = 10, g_end = 20,
           g_location = None, g_isHome = None\<rparr>"
  let ?req = "\<lparr>b_id = 7, b_start_at = 19, b_end_at = 30, b_status = str ''Requested'',
            b_note = None, b_team_id = 5, b_pitch_id = 2, b_created_by = None\<rparr>"
  let ?rej = "\<lparr>b_id = 8, b_start_at = 0, b_end_at = 30, b_status = str ''rejected'',
            b_note = None, b_team_id = 5, b_pitch_id = 2, b_created_by = None\<rparr>"
  have el: "?p \<in> set (allowedPitchesForAge [?p] None)"
    by (simp add: allowedPitchesForAge_def)
  have latin: "\<forall>b \<in> set [?req]. \<forall>c \<in> set (b_status b). c < 256"
    by (simp add: str_def)
  have req: "map canon (b_status ?req) = str ''REQUESTED''"
    and rej: "map canon (b_status ?rej) = str ''REJECTED''"
    by (simp_all add: canon_def str_def)
  have first: "?p \<notin> set (getAvailablePitches [?p] None ?g [?req])"
    using availability_excludes_iff_blocked [of ?p "[?p]" None "[?req]" ?g ?rej] el latin req
    by simp
  have "getAvailablePitches [?p] None ?g [?rej] = getAvailablePitches [?p] None ?g []"
    using availability_excludes_iff_blocked [of ?p "[?p]" None "[]" ?g ?rej] rej
    by blast
  then have "getAvailablePitches [?p] None ?g [?rej] = [?p]"
    by (simp add: getAvailablePitches_def allowedPitchesForAge_def)
  with first show ?thesis
    by simp
qed

theorem availability_ineligible_counterexample:
  "\<lparr>p_id = 2, p_name = str ''A'', p_type = KOMPAKT\<rparr>
      \<notin> set (getAvailablePitches [\<lparr>p_id = 2, p_name = str ''A'', p_type = KOMPAKT\<rparr>] (Some 14)
          \<lparr>g_uid = str ''u'', g_summary = str ''s'', g_start = 10, g_end = 20,
           g_location = None, g_isHome = None\<rparr> [])"
  by (simp add: getAvailablePitches_def allowedPitchesForAge_def)




lemma book_row_blocks:
  "toUpperCase (b_status (book_row i g pid t u)) \<in> BLOCKING_STATUSES"
  by (simp add: book_row_def upper_APPROVED APPROVED_blocking)

text \<open>
  Claim C10, as the code has it. The computation looks at every booking of the list and
  exempts none: a booking that blocks (status REQUESTED or APPROVED in upper case), lies
  on the pitch and overlaps the game's interval takes the pitch out of the result, be it
  the game's own booking or not. The row that \<open>bookApproved\<close> inserts for a game is
  such a booking whenever the game starts before it ends. The claim says that this row
  always overlaps the game's interval; for a game that ends when it starts the test
  \<open>aStart < bEnd && bStart < aEnd\<close> fails on the game's own row, and the pitch stays
  in the result, which is the counterexample.
\<close>

theorem own_booking_not_exempt:
  "(b \<in> set bookingsList \<and> toUpperCase (b_status b) \<in> BLOCKING_STATUSES \<and>
      b_pitch_id b = p_id p \<and>
      overlaps (g_start game) (g_end game) (b_start_at b) (b_end_at b) \<longrightarrow>
      p \<notin> set (getAvailablePitches inventory ageU game bookingsList))
   \<and> (g_start game < g_end game \<and>
        book_row i game (p_id p) team user \<in> set bookingsList \<longrightarrow>
        p \<notin> set (getAvailablePitches inventory ageU game bookingsList))"
proof (intro conjI impI)
  assume "b \<in> set bookingsList \<and> toUpperCase (b_status b) \<in> BLOCKING_STATUSES \<and>
      b_pitch_id b = p_id p \<and>
      overlaps (g_start game) (g_end game) (b_start_at b) (b_end_at b)"
  then show "p \<notin> set (getAvailablePitches inventory ageU game bookingsList)"
    by (auto simp add: available_iff)
next
  assume a: "g_start game < g_end game \<and>
        book_row i game (p_id p) team user \<in> set bookingsList"
  let ?row = "book_row i game (p_id p) team user"
  have "toUpperCase (b_status ?row) \<in> BLOCKING_STATUSES"
    by (rule book_row_blocks)
  moreover have "b_pitch_id ?row = p_id p"
    by (simp add: book_row_def)
  moreover have "overlaps (g_start game) (g_end game) (b_start_at ?row) (b_end_at ?row)"
    using a by (simp add: book_row_def overlaps_def)
  ultimately show "p \<notin> set (getAvailablePitches inventory ageU game bookingsList)"
    using a by (auto simp add: available_iff)
qed

theorem own_booking_not_exempt_witness:
  "\<lparr>p_id = 1, p_name = str ''A'', p_type = KOMPAKT\<rparr>
     \<notin> set (getAvailablePitches [\<lparr>p_id = 1, p_name = str ''A'', p_type = KOMPAKT\<rparr>] None
         \<lparr>g_uid = str ''u'', g_summary = str ''s'', g_start = 10, g_end = 20,
          g_location = None, g_isHome = None\<rparr>
         [book_row 0 \<lparr>g_uid = str ''u'', g_summary = str ''s'', g_start = 10, g_end = 20,
                       g_location = None, g_isHome = None\<rparr> 1 5 6])"
  using own_booking_not_exempt
    [of "book_row 0 \<lparr>g_uid = str ''u'', g_summary = str ''s'', g_start = 10, g_end = 20,
                      g_location = None, g_isHome = None\<rparr> 1 5 6"
        "[book_row 0 \<lparr>g_uid = str ''u'', g_summary = str ''s'', g_start = 10, g_end = 20,
                       g_location = None, g_isHome = None\<rparr> 1 5 6]"
        "\<lparr>p_id = 1, p_name = str ''A'', p_type = KOMPAKT\<rparr>"
        "\<lparr>g_uid = str ''u'', g_summary = str ''s'', g_start = 10, g_end = 20,
          g_location = None, g_isHome = None\<rparr>"
        "[\<lparr>p_id = 1, p_name = str ''A'', p_type = KOMPAKT\<rparr>]" None 0 5 6]
  by (simp add: book_row_blocks overlaps_def)

theorem own_booking_exempt_counterexample:
  "\<lparr>p_id = 1, p_name = str ''A'', p_type = KOMPAKT\<rparr>
     \<in> set (getAvailablePitches [\<lparr>p_id = 1, p_name = str ''A'', p_type = KOMPAKT\<rparr>] None
         \<lparr>g_uid = str ''u'', g_summary = str ''s'', g_start = 10, g_end = 10,
          g_location = None, g_isHome = None\<rparr>
         [book_row 0 \<lparr>g_uid = str ''u'', g_summary = str ''s'', g_start = 10, g_end = 10,
                       g_location = None, g_isHome = None\<rparr> 1 5 6])"
  by (simp add: available_iff allowedPitchesForAge_def overlaps_def book_row_def)

section \<open>Properties of the fixture tag\<close>

lemma uid_maps_fst:
  "fst (uid_maps (m1, m2) list) u =
     (if linked u list = [] \<or> (u = str ''__proto__'' \<and> m1 u = None) then m1 u
      else Some (b_id (last (linked u list))))"
proof (induction list arbitrary: m1 m2)
  case Nil
  then show ?case by (simp add: linked_def)
next
  case (Cons a list)
  show ?case
  proof (cases "findBfvUid (b_note a)")
    case None
    then show ?thesis by (auto simp add: Cons.IH linked_def)
  next
    case (Some v)
    then show ?thesis
      by (auto simp add: Cons.IH linked_def js_assign_def)
  qed
qed

lemma uidToBookingId_linked:
  "uidToBookingId list u =
     (if linked u list = [] \<or> u = str ''__proto__'' then None
      else Some (b_id (last (linked u list))))"
  by (simp add: uidToBookingId_def uid_maps_fst)

lemma proto_is_inherited: "str ''__proto__'' \<in> set proto_names"
  by (simp add: proto_names_def)

text \<open>
  Claim C7, as the code has it. The loop of \<open>loadBookingsForRange\<close> writes
  \<open>uidToBookingId[uid] = b.id\<close> for every booking whose note holds a tag, so a later
  booking overwrites an earlier one with the same fixture id: when one or more bookings
  of the list are linked to a fixture id, the lookup gives the last of them in list
  order, not the first. The one id for which nothing is written is \<open>__proto__\<close>, where
  the assignment stores nothing and the lookup gives the inherited prototype object.
  The lookup is a total function of the list; several bookings for one id raise nothing.
\<close>

theorem lookup_returns_last_match:
  "linked u list \<noteq> [] \<longrightarrow>
     js_get (uidToBookingId list) u =
       (if u = str ''__proto__'' then Inherited else Own (b_id (last (linked u list))))"
  by (simp add: js_get_def uidToBookingId_linked proto_is_inherited)

lemma demo_tags:
  "findBfvUid (Some (str ''[BFV_UID:a]'')) = Some (str ''a'')"
  "findBfvUid (Some (str ''[BFV_UID:b]'')) = Some (str ''b'')"
  "str ''a'' \<noteq> str ''b''" "str ''b'' \<noteq> str ''a''" "str ''a'' \<noteq> str ''__proto__''"
  by (simp_all add: findBfvUid_def bfv_uid_at_def canon_def str_def)

theorem lookup_returns_last_match_witness:
  "js_get (uidToBookingId
     [\<lparr>b_id = 2, b_start_at = 0, b_end_at = 5, b_status = str ''APPROVED'',
       b_note = Some (str ''[BFV_UID:a]''), b_team_id = 5, b_pitch_id = 2,
       b_created_by = None\<rparr>,
      \<lparr>b_id = 3, b_start_at = 0, b_end_at = 5, b_status = str ''APPROVED'',
       b_note = Some (str ''[BFV_UID:a]''), b_team_id = 5, b_pitch_id = 3,
       b_created_by = None\<rparr>,
      \<lparr>b_id = 4, b_start_at = 0, b_end_at = 5, b_status = str ''APPROVED'',
       b_note = Some (str ''[BFV_UID:a]''), b_team_id = 5, b_pitch_id = 4,
       b_created_by = None\<rparr>,
      \<lparr>b_id = 6, b_start_at = 0, b_end_at = 5, b_status = str ''APPROVED'',
       b_note = Some (str ''[BFV_UID:b]''), b_team_id = 5, b_pitch_id = 2,
       b_created_by = None\<rparr>]) (str ''a'') = Own 4"
  using lookup_returns_last_match
    [of "str ''a''"
        "[\<lparr>b_id = 2, b_start_at = 0, b_end_at = 5, b_status = str ''APPROVED'',
           b_note = Some (str ''[BFV_UID:a]''), b_team_id = 5, b_pitch_id = 2,
           b_created_by = None\<rparr>,
          \<lparr>b_id = 3, b_start_at = 0, b_end_at = 5, b_status = str ''APPROVED'',
           b_note = Some (str ''[BFV_UID:a]''), b_team_id = 5, b_pitch_id = 3,
           b_created_by = None\<rparr>,
          \<lparr>b_id = 4, b_start_at = 0, b_end_at = 5, b_status = str ''APPROVED'',
           b_note = Some (str ''[BFV_UID:a]''), b_team_id = 5, b_pitch_id = 4,
           b_created_by = None\<rparr>,
          \<lparr>b_id = 6, b_start_at = 0, b_end_at = 5, b_status = str ''APPROVED'',
           b_note = Some (str ''[BFV_UID:b]''), b_team_id = 5, b_pitch_id = 2,
           b_created_by = None\<rparr>]"]
  by (simp add: linked_def demo_tags)

theorem lookup_first_match_counterexample:
  "linked (str ''a'')
     [\<lparr>b_id = 2, b_start_at = 0, b_end_at = 5, b_status = str ''APPROVED'',
       b_note = Some (str ''[BFV_UID:a]''), b_team_id = 5, b_pitch_id = 2,
       b_created_by = None\<rparr>,
      \<lparr>b_id = 3, b_start_at = 0, b_end_at = 5, b_status = str ''APPROVED'',
       b_note = Some (str ''[BFV_UID:a]''), b_team_id = 5, b_pitch_id = 3,
       b_created_by = None\<rparr>]
   = [\<lparr>b_id = 2, b_start_at = 0, b_end_at = 5, b_status = str ''APPROVED'',
       b_note = Some (str ''[BFV_UID:a]''), b_team_id = 5, b_pitch_id = 2,
       b_created_by = None\<rparr>,
      \<lparr>b_id = 3, b_start_at = 0, b_end_at = 5, b_status = str ''APPROVED'',
       b_note = Some (str ''[BFV_UID:a]''), b_team_id = 5, b_pitch_id = 3,
       b_created_by = None\<rparr>]
   \<and> js_get (uidToBookingId
     [\<lparr>b_id = 2, b_start_at = 0, b_end_at = 5, b_status = str ''APPROVED'',
       b_note = Some (str ''[BFV_UID:a]''), b_team_id = 5, b_pitch_id = 2,
       b_created_by = None\<rparr>,
      \<lparr>b_id = 3, b_start_at = 0, b_end_at = 5, b_status = str ''APPROVED'',
       b_note = Some (str ''[BFV_UID:a]''), b_team_id = 5, b_pitch_id = 3,
       b_created_by = None\<rparr>]) (str ''a'') = Own 3"
  by (simp add: js_get_def uidToBookingId_linked linked_def demo_tags)

lemma match_ci_append_None:
  "match_ci pat s = None \<Longrightarrow> \<forall>p \<in> set pat. canon p \<noteq> canon x \<Longrightarrow>
   match_ci pat (s @ x # t) = None"
  by (induction pat s rule: match_ci.induct) (auto split: if_splits)

lemma match_ci_append_Some:
  "match_ci pat s = Some rest \<Longrightarrow> match_ci pat (s @ t) = Some (rest @ t)"
  by (induction pat s rule: match_ci.induct) (auto split: if_splits)

lemma tag_units_not_LF: "\<forall>p \<in> set (str ''[BFV_UID:''). canon p \<noteq> canon 10"
  by (simp add: str_def canon_def)

lemma bfv_uid_at_skip:
  assumes "\<not> opener_at s"
  shows "bfv_uid_at (s @ 10 # t) = None"
proof (cases "match_ci (str ''[BFV_UID:'') s")
  case None
  then have "match_ci (str ''[BFV_UID:'') (s @ 10 # t) = None"
    using tag_units_not_LF by (rule match_ci_append_None)
  then show ?thesis
    by (simp add: bfv_uid_at_def)
next
  case (Some rest)
  with assms obtain r where "rest = 93 # r"
    by (cases rest) (auto simp add: opener_at_def)
  with Some have "match_ci (str ''[BFV_UID:'') (s @ 10 # t) = Some (93 # r @ 10 # t)"
    using match_ci_append_Some [of "str ''[BFV_UID:''" s rest "10 # t"] by simp
  then show ?thesis
    by (simp add: bfv_uid_at_def)
qed

lemma bfv_uid_search_skip:
  "\<not> has_opener s \<Longrightarrow> bfv_uid_search (s @ 10 # t) = bfv_uid_search (10 # t)"
proof (induction s)
  case Nil
  then show ?case by simp
next
  case (Cons c cs)
  from Cons.prems have m: "\<not> opener_at (c # cs)" and r: "\<not> has_opener cs"
    by simp_all
  have "bfv_uid_at ((c # cs) @ 10 # t) = None"
    using m by (rule bfv_uid_at_skip)
  then show ?case
    using Cons.IH [OF r] by simp
qed

lemma bfv_uid_search_head:
  "bfv_uid_search (str ''[BFV] '' @ x) = bfv_uid_search x"
  by (simp add: str_def bfv_uid_at_def canon_def)

lemma bfv_uid_search_tag:
  assumes "u \<noteq> []" and "93 \<notin> set u"
  shows "bfv_uid_search (10 # str ''[BFV_UID:'' @ u @ str '']'') = Some u"
proof -
  have "\<forall>c \<in> set u. c \<noteq> 93"
    using assms(2) by auto
  then have "takeWhile (\<lambda>c. c \<noteq> 93) (u @ [93]) = u"
    and "dropWhile (\<lambda>c. c \<noteq> 93) (u @ [93]) = [93]"
    by simp_all
  then show ?thesis
    using assms(1) by (simp add: str_def bfv_uid_at_def canon_def)
qed

lemma findBfvUid_book_note:
  assumes "g_uid g \<noteq> []" and "93 \<notin> set (g_uid g)" and "\<not> has_opener (g_summary g)"
  shows "findBfvUid (Some (book_note g)) = Some (g_uid g)"
proof -
  have "book_note g \<noteq> []"
    by (simp add: book_note_def str_def)
  moreover have "bfv_uid_search (book_note g) = Some (g_uid g)"
    using bfv_uid_search_skip [OF assms(3)] bfv_uid_search_tag [OF assms(1,2)]
    by (simp add: book_note_def bfv_uid_search_head)
  ultimately show ?thesis
    by (simp add: findBfvUid_def)
qed

text \<open>
  Claim C6, as the code has it. \<open>findBfvUid\<close> takes the first place of the note where
  the expression matches, and \<open>bookApproved\<close> writes the summary of the game in front of
  the tag. For a fixture whose id is not empty and holds no \<open>]\<close>, and whose summary
  nowhere holds \<open>[BFV_UID:\<close> (in any case of its letters) other than directly in front
  of a \<open>]\<close>, the id read back from the note is the id of the fixture. In the lookup
  object built from a list with one booking that carries this note, the booking is found
  under the id of the fixture, unless that id is \<open>__proto__\<close>, under which nothing is
  stored; under every other id the lookup is undefined or, for the names that every
  object inherits, the inherited value, and never the booking. Without the condition on
  the summary a tag inside the summary is read instead, which is the counterexample.
\<close>

theorem tag_round_trip:
  "g_uid g \<noteq> [] \<and> 93 \<notin> set (g_uid g) \<and> \<not> has_opener (g_summary g)
   \<longrightarrow> findBfvUid (Some (book_note g)) = Some (g_uid g)
       \<and> (b_note b = Some (book_note g) \<longrightarrow>
            js_get (uidToBookingId [b]) u =
              (if u = g_uid g \<and> u \<noteq> str ''__proto__'' then Own (b_id b)
               else if u \<in> set proto_names then Inherited else Undefined))"
  by (auto simp add: findBfvUid_book_note js_get_def uidToBookingId_linked linked_def)

theorem tag_round_trip_witness:
  "findBfvUid (Some (book_note \<lparr>g_uid = str ''abc123'', g_summary = str ''A - B [BFV_UID:]'',
      g_start = 0, g_end = 5, g_location = None, g_isHome = None\<rparr>)) = Some (str ''abc123'')"
  using tag_round_trip
    [of "\<lparr>g_uid = str ''abc123'', g_summary = str ''A - B [BFV_UID:]'',
          g_start = 0, g_end = 5, g_location = None, g_isHome = None\<rparr>"]
  by (simp add: opener_at_def str_def canon_def)

theorem tag_round_trip_counterexample:
  "g_uid \<lparr>g_uid = str ''a'', g_summary = str ''[BFV_UID:x]'',
      g_start = 0, g_end = 5, g_location = None, g_isHome = None\<rparr> \<noteq> []
   \<and> 93 \<notin> set (g_uid \<lparr>g_uid = str ''a'', g_summary = str ''[BFV_UID:x]'',
      g_start = 0, g_end = 5, g_location = None, g_isHome = None\<rparr>)
   \<and> findBfvUid (Some (book_note \<lparr>g_uid = str ''a'', g_summary = str ''[BFV_UID:x]'',
      g_start = 0, g_end = 5, g_location = None, g_isHome = None\<rparr>)) = Some (str ''x'')"
  by (simp add: findBfvUid_def book_note_def bfv_uid_at_def canon_def str_def)

section \<open>Properties of the classification\<close>

lemmas norm_defs = normalizeForMatch_def toLowerCase_def lower_unit_def normalizeNFKD_def
  nfkd_unit_def nfkd_table_def strip_marks_def fold_german_def replace_unit_def is_az09_def
  is_ws_def trim_def str_def

lemma norm_Stern: "normalizeForMatch (str ''Stern'') = str ''stern''"
  by (simp add: norm_defs)

lemma split_Stern_Stern:
  "splitHomeAway (str ''Stern - Stern'') = Some (str ''Stern'', str ''Stern'')"
  by (simp add: splitHomeAway_def split_sides_def js_split_def Let_def trim_def is_ws_def str_def)

lemma matchSide_Stern: "matchSide [str ''stern''] (str ''Stern'')"
  by (simp add: matchSide_def norm_Stern) (simp add: str_def)

text \<open>
  Claim C3, as the code has it. When the summary splits into two sides, the branch
  \<open>else if (leftMatch && rightMatch) isHome = true\<close> makes a game home when both sides
  contain a match token; the result is unknown only when neither side contains one. The
  counterexample is a summary with the same club on both sides.
\<close>

theorem both_sides_home_neither_unknown:
  "splitHomeAway (g_summary g) = Some (l, r) \<longrightarrow>
     (matchSide tokens l \<and> matchSide tokens r \<longrightarrow> g_isHome (classify tokens g) = Some True)
   \<and> (\<not> matchSide tokens l \<and> \<not> matchSide tokens r \<longrightarrow> g_isHome (classify tokens g) = None)"
  by (simp add: classify_def Let_def)

theorem both_sides_home_neither_unknown_witness:
  "g_isHome (classify [str ''stern'']
      \<lparr>g_uid = str ''u'', g_summary = str ''Stern - Stern'', g_start = 0, g_end = 1,
       g_location = None, g_isHome = None\<rparr>) = Some True"
  using both_sides_home_neither_unknown
    [of "\<lparr>g_uid = str ''u'', g_summary = str ''Stern - Stern'', g_start = 0, g_end = 1,
          g_location = None, g_isHome = None\<rparr>" "str ''Stern''" "str ''Stern''"
        "[str ''stern'']"]
  by (simp add: split_Stern_Stern matchSide_Stern)

theorem both_sides_unknown_counterexample:
  "splitHomeAway (str ''Stern - Stern'') = Some (str ''Stern'', str ''Stern'')
   \<and> matchSide [str ''stern''] (str ''Stern'')
   \<and> g_isHome (classify [str ''stern'']
        \<lparr>g_uid = str ''u'', g_summary = str ''Stern - Stern'', g_start = 0, g_end = 1,
         g_location = None, g_isHome = None\<rparr>) \<noteq> None"
  by (simp add: classify_def Let_def split_Stern_Stern matchSide_Stern)

text \<open>
  Claim C4. The letters a, o and u with diaeresis are not mapped to ae, oe and ue: they
  are decomposed and lose their mark before the three replacements are reached, which
  then find nothing to replace. The name of Munich in German (77 is M, 252 the u with diaeresis, then
  \<open>nchen\<close>) is normalized to \<open>munchen\<close>, not to \<open>muenchen\<close>; the sharp s (223), which does not
  decompose, does become \<open>ss\<close>.
\<close>

theorem umlaut_not_folded:
  "normalizeForMatch ([77, 252] @ str ''nchen'') = str ''munchen''
   \<and> normalizeForMatch [228, 246, 252, 223] = str ''aouss''"
  by (simp add: norm_defs)

section \<open>Properties of booking and undoing\<close>

lemma bookedMap_forget [simp]: "bookedMap (forget w u) u = None"
  by (simp add: forget_def)

lemma db_forget [simp]: "db (forget w u) = db w"
  by (simp add: forget_def)

lemma undo_without_entry: "js_get (bookedMap w) u = Undefined \<Longrightarrow> undoBooking e w u = w"
  by (simp add: undoBooking_def)

lemma undo_success:
  assumes "js_get (bookedMap w) u = Own i" and "\<not> delete_fails e" and "\<not> select_fails e"
  shows "bookedMap (undoBooking e w u) u = None"
    and "db (undoBooking e w u) = filter (\<lambda>b. b_id b \<noteq> i) (db w)"
  using assms
  by (auto simp add: undoBooking_def loadBookingsForRange_def Let_def
      split: option.splits prod.splits)

lemma book_inserts:
  assumes "session_user e = Some user" and "resolveLocalTeamId w = Some t"
    and "store_accepts e (db w) (book_row (db_next w) game pid t user)"
  shows "db (bookApproved e w game pid) = db w @ [book_row (db_next w) game pid t user]"
    and "db_next (bookApproved e w game pid) = Suc (db_next w)"
  using assms
  by (auto simp add: bookApproved_def loadBookingsForRange_def Let_def
      split: option.splits prod.splits)

lemma book_records:
  assumes "session_user e = Some user" and "resolveLocalTeamId w = Some t"
    and "store_accepts e (db w) (book_row (db_next w) game pid t user)"
    and "\<not> select_fails e"
  shows "bookedMap (bookApproved e w game pid) (g_uid game) = Some (db_next w)"
  using assms
  by (auto simp add: bookApproved_def loadBookingsForRange_def Let_def book_row_def
      split: option.splits prod.splits)

lemma own_is_booked: "bookedMap w (g_uid g) = Some i \<Longrightarrow> row_action w g = OfferUndo"
  by (simp add: row_action_def isBooked_def js_get_def)

lemma offer_book_unbooked:
  "row_action w g = OfferBook pid \<Longrightarrow> js_get (bookedMap w) (g_uid g) = Undefined"
  by (simp add: row_action_def isBooked_def split: if_splits)

lemma unbooked_selected:
  assumes "\<not> isBooked w g"
  shows "js_get (selectedPitchByUid w) (g_uid g) =
           (case selectedPitchByUid w (g_uid g) of None \<Rightarrow> Undefined | Some v \<Rightarrow> Own v)"
proof -
  have "g_uid g \<notin> set proto_names"
    using assms by (auto simp add: isBooked_def js_get_def split: option.splits if_splits)
  then show ?thesis
    by (simp add: js_get_def)
qed

text \<open>
  Claim C1, as the code has it. \<open>bookApproved\<close> looks for no booking of the fixture
  before it inserts: whenever there is a session, a local team and a store that accepts
  the row, one more row is appended to the table, and for a fixture whose id is not
  empty and holds no \<open>]\<close> and whose summary holds no \<open>[BFV_UID:\<close> other than in front
  of a \<open>]\<close>, that row is one more booking linked to the fixture; so a second call for
  the same fixture can create a second fixture-linked booking (the counterexample, on
  two pitches). What the page has is a gate: a row of its table offers to book a game
  only when the lookup \<open>bookedMap[g.uid]\<close> is undefined, and a call that inserted, if
  the reload after it does not fail, leaves the new booking in \<open>bookedMap\<close> under the
  id of the fixture, so that the row then offers to undo. \<open>undoBooking\<close> for a fixture
  id whose lookup in \<open>bookedMap\<close> is undefined returns the state as it was, with no
  error. When the lookup is a booking and neither the delete nor the reload fails, the
  call deletes that booking from the table and the entry from \<open>bookedMap\<close>; for an id
  that is not the name of a property that every object inherits, a second call then
  changes nothing.
\<close>

theorem book_records_and_undo_forgets:
  "(session_user e = Some user \<and> resolveLocalTeamId w = Some t
      \<and> store_accepts e (db w) (book_row (db_next w) game pid t user) \<longrightarrow>
        db (bookApproved e w game pid) = db w @ [book_row (db_next w) game pid t user]
        \<and> (g_uid game \<noteq> [] \<and> 93 \<notin> set (g_uid game) \<and> \<not> has_opener (g_summary game) \<longrightarrow>
             linked (g_uid game) (db (bookApproved e w game pid)) =
               linked (g_uid game) (db w) @ [book_row (db_next w) game pid t user])
        \<and> (\<not> select_fails e \<longrightarrow>
             js_get (bookedMap (bookApproved e w game pid)) (g_uid game) = Own (db_next w)
             \<and> row_action (bookApproved e w game pid) game = OfferUndo))
   \<and> (row_action w game = OfferBook pid \<longrightarrow> js_get (bookedMap w) (g_uid game) = Undefined)
   \<and> (js_get (bookedMap w) u = Undefined \<longrightarrow> undoBooking e w u = w)
   \<and> (js_get (bookedMap w) u = Own i \<and> \<not> delete_fails e \<and> \<not> select_fails e \<longrightarrow>
        bookedMap (undoBooking e w u) u = None
        \<and> db (undoBooking e w u) = filter (\<lambda>b. b_id b \<noteq> i) (db w)
        \<and> (u \<notin> set proto_names \<longrightarrow>
             undoBooking e (undoBooking e w u) u = undoBooking e w u))"
proof (intro conjI impI)
  assume a: "session_user e = Some user \<and> resolveLocalTeamId w = Some t
      \<and> store_accepts e (db w) (book_row (db_next w) game pid t user)"
  then show d: "db (bookApproved e w game pid) = db w @ [book_row (db_next w) game pid t user]"
    by (simp add: book_inserts)
  {
    assume "g_uid game \<noteq> [] \<and> 93 \<notin> set (g_uid game) \<and> \<not> has_opener (g_summary game)"
    then have "findBfvUid (Some (book_note game)) = Some (g_uid game)"
      by (simp add: findBfvUid_book_note)
    then show "linked (g_uid game) (db (bookApproved e w game pid)) =
               linked (g_uid game) (db w) @ [book_row (db_next w) game pid t user]"
      using d by (simp add: linked_def book_row_def)
  }
  assume "\<not> select_fails e"
  with a have own: "bookedMap (bookApproved e w game pid) (g_uid game) = Some (db_next w)"
    by (simp add: book_records)
  then show "js_get (bookedMap (bookApproved e w game pid)) (g_uid game) = Own (db_next w)"
    by (simp add: js_get_def)
  from own show "row_action (bookApproved e w game pid) game = OfferUndo"
    by (rule own_is_booked)
next
  assume "row_action w game = OfferBook pid"
  then show "js_get (bookedMap w) (g_uid game) = Undefined"
    by (rule offer_book_unbooked)
next
  assume "js_get (bookedMap w) u = Undefined"
  then show "undoBooking e w u = w"
    by (rule undo_without_entry)
next
  assume a: "js_get (bookedMap w) u = Own i \<and> \<not> delete_fails e \<and> \<not> select_fails e"
  then show none: "bookedMap (undoBooking e w u) u = None"
    by (simp add: undo_success)
  from a show "db (undoBooking e w u) = filter (\<lambda>b. b_id b \<noteq> i) (db w)"
    by (simp add: undo_success)
  assume "u \<notin> set proto_names"
  with none have "js_get (bookedMap (undoBooking e w u)) u = Undefined"
    by (simp add: js_get_def)
  then show "undoBooking e (undoBooking e w u) u = undoBooking e w u"
    by (rule undo_without_entry)
qed

lemma book_keeps_teams:
  "teams (bookApproved e w game pid) = teams w"
  "selectedBfvTeam (bookApproved e w game pid) = selectedBfvTeam w"
  by (auto simp add: bookApproved_def loadBookingsForRange_def Let_def
      split: option.splits prod.splits)

lemma book_keeps_team_id:
  "resolveLocalTeamId (bookApproved e w game pid) = resolveLocalTeamId w"
  unfolding resolveLocalTeamId_def book_keeps_teams by (rule refl)

lemma demo_team: "resolveLocalTeamId demo_page = Some 5"
  by (simp add: resolveLocalTeamId_def demo_page_def)

lemma demo_first_accepted:
  "store_accepts demo_env (db demo_page) (book_row (db_next demo_page) demo_game 2 5 9)"
  by (simp add: demo_env_def demo_page_def exclusion_constraint_def)

lemma demo_first_db:
  "db (bookApproved demo_env demo_page demo_game 2) = [book_row 40 demo_game 2 5 9]"
  "db_next (bookApproved demo_env demo_page demo_game 2) = 41"
proof -
  have e: "session_user demo_env = Some 9"
    by (simp add: demo_env_def)
  have n: "db demo_page = []" "db_next demo_page = 40"
    by (simp_all add: demo_page_def)
  show "db (bookApproved demo_env demo_page demo_game 2) = [book_row 40 demo_game 2 5 9]"
    using book_inserts(1) [OF e demo_team demo_first_accepted] n by simp
  show "db_next (bookApproved demo_env demo_page demo_game 2) = 41"
    using book_inserts(2) [OF e demo_team demo_first_accepted] n by simp
qed

lemma demo_second_accepted:
  "store_accepts demo_env (db (bookApproved demo_env demo_page demo_game 2))
     (book_row (db_next (bookApproved demo_env demo_page demo_game 2)) demo_game 3 5 9)"
  unfolding demo_first_db
  by (simp add: demo_env_def exclusion_constraint_def book_row_def overlaps_def demo_game_def)

lemma demo_second_db:
  "db (bookApproved demo_env (bookApproved demo_env demo_page demo_game 2) demo_game 3)
     = [book_row 40 demo_game 2 5 9, book_row 41 demo_game 3 5 9]"
proof -
  have e: "session_user demo_env = Some 9"
    by (simp add: demo_env_def)
  have r: "resolveLocalTeamId (bookApproved demo_env demo_page demo_game 2) = Some 5"
    by (simp only: book_keeps_team_id demo_team)
  have "db (bookApproved demo_env (bookApproved demo_env demo_page demo_game 2) demo_game 3)
      = db (bookApproved demo_env demo_page demo_game 2)
        @ [book_row (db_next (bookApproved demo_env demo_page demo_game 2)) demo_game 3 5 9]"
    by (rule book_inserts(1) [OF e r demo_second_accepted])
  then show ?thesis
    unfolding demo_first_db by simp
qed

lemma demo_note: "findBfvUid (Some (book_note demo_game)) = Some (str ''a'')"
  by (simp add: findBfvUid_def book_note_def demo_game_def bfv_uid_at_def canon_def str_def)

lemma demo_offer: "row_action demo_page demo_game = OfferBook 2"
  by (simp add: row_action_def isBooked_def js_get_def demo_page_def demo_game_def
      proto_names_def getAvailablePitches_def allowedPitchesForAge_def toLowerCase_def
      lower_unit_def str_def)

theorem book_records_and_undo_forgets_witness:
  "row_action demo_page demo_game = OfferBook 2
   \<and> undoBooking demo_env demo_page (str ''a'') = demo_page
   \<and> row_action (bookApproved demo_env demo_page demo_game 2) demo_game = OfferUndo
   \<and> length (linked (str ''a'') (db (bookApproved demo_env demo_page demo_game 2))) = 1
   \<and> db (undoBooking demo_env (bookApproved demo_env demo_page demo_game 2) (str ''a'')) = []
   \<and> undoBooking demo_env
        (undoBooking demo_env (bookApproved demo_env demo_page demo_game 2) (str ''a''))
        (str ''a'')
      = undoBooking demo_env (bookApproved demo_env demo_page demo_game 2) (str ''a'')"
proof -
  let ?w1 = "bookApproved demo_env demo_page demo_game 2"
  let ?u = "g_uid demo_game"
  have g: "?u = str ''a''"
    by (simp add: demo_game_def)
  have h: "?u \<noteq> [] \<and> 93 \<notin> set ?u \<and> \<not> has_opener (g_summary demo_game)"
    by (simp add: demo_game_def opener_at_def str_def canon_def)
  have l: "linked ?u (db demo_page) = []"
    by (simp add: demo_page_def linked_def)
  have p: "?u \<notin> set proto_names"
    by (simp add: demo_game_def proto_names_def str_def)
  have e: "session_user demo_env = Some 9" "\<not> delete_fails demo_env"
    "\<not> select_fails demo_env"
    by (simp_all add: demo_env_def)
  have a: "store_accepts demo_env (db demo_page) (book_row (db_next demo_page) demo_game 2 5 9)"
    by (rule demo_first_accepted)
  note T = book_records_and_undo_forgets
    [where e = demo_env and w = demo_page and game = demo_game and pid = 2 and t = 5
       and user = 9 and u = ?u and i = 40]
  have gate: "js_get (bookedMap demo_page) ?u = Undefined"
    using T demo_offer by blast
  then have noop: "undoBooking demo_env demo_page ?u = demo_page"
    using T by blast
  have first: "linked ?u (db ?w1) = linked ?u (db demo_page) @ [book_row (db_next demo_page) demo_game 2 5 9]
      \<and> js_get (bookedMap ?w1) ?u = Own (db_next demo_page)
      \<and> row_action ?w1 demo_game = OfferUndo"
    using T demo_team a h e by blast
  then have own: "js_get (bookedMap ?w1) ?u = Own 40"
    by (simp add: demo_page_def)
  note U = book_records_and_undo_forgets
    [where e = demo_env and w = ?w1 and game = demo_game and pid = 2 and t = 5
       and user = 9 and u = ?u and i = 40]
  have second: "db (undoBooking demo_env ?w1 ?u) = filter (\<lambda>b. b_id b \<noteq> 40) (db ?w1)
      \<and> undoBooking demo_env (undoBooking demo_env ?w1 ?u) ?u = undoBooking demo_env ?w1 ?u"
    using U own e p by blast
  have "filter (\<lambda>b. b_id b \<noteq> 40) (db ?w1) = []"
    by (simp add: demo_first_db book_row_def)
  then show ?thesis
    using demo_offer noop first second l by (simp add: g)
qed

theorem second_book_counterexample:
  "length (linked (str ''a'')
     (db (bookApproved demo_env (bookApproved demo_env demo_page demo_game 2) demo_game 3))) = 2"
  by (simp add: demo_second_db linked_def book_row_def demo_note)

section \<open>Properties of the parser\<close>

lemma run_Nil [simp]: "run tz st [] = st"
  by (simp add: run_def)

lemma run_Cons [simp]: "run tz st (l # ls) = run tz (parse_line tz st l) ls"
  by (simp add: run_def)

lemma run_append: "run tz st (ls @ ms) = run tz (run tz st ls) ms"
  by (simp add: run_def)

lemma parse_lines_run: "parse_lines tz ls = games (run tz parse_init ls)"
  by (simp add: parse_lines_def run_def)

lemma emit_same_fields: "same_fields s t \<Longrightarrow> emit s = emit t"
  by (auto simp add: same_fields_def emit_def split: option.splits)

lemma emit_Some_iff:
  "emit st = Some g \<longleftrightarrow>
     inEvent st \<and> uid st \<noteq> [] \<and> summary st \<noteq> [] \<and>
     (\<exists>s e. dtStart st = Some s \<and> dtEnd st = Some e \<and>
        g = \<lparr>g_uid = uid st, g_summary = summary st, g_start = s, g_end = e,
             g_location = (if location st \<noteq> [] then Some (location st) else None),
             g_isHome = None\<rparr>)"
  by (auto simp add: emit_def split: option.splits)

lemma emit_None_iff:
  "emit st = None \<longleftrightarrow>
     \<not> inEvent st \<or> uid st = [] \<or> summary st = [] \<or> dtStart st = None \<or> dtEnd st = None"
  by (auto simp add: emit_def split: option.splits)

lemma step_same_fields:
  assumes "same_fields s t"
  shows "same_fields (parse_line tz s l) (parse_line tz t l)"
    and "\<exists>new. games (parse_line tz s l) = games s @ new \<and> games (parse_line tz t l) = games t @ new"
proof -
  show "same_fields (parse_line tz s l) (parse_line tz t l)"
    using assms by (auto simp add: parse_line_def same_fields_def)
  have "emit s = emit t"
    using assms by (rule emit_same_fields)
  then show "\<exists>new. games (parse_line tz s l) = games s @ new \<and> games (parse_line tz t l) = games t @ new"
    using assms by (auto simp add: parse_line_def same_fields_def split: option.splits)
qed

lemma run_same_fields:
  "same_fields s t \<Longrightarrow>
   same_fields (run tz s ls) (run tz t ls) \<and>
   (\<exists>new. games (run tz s ls) = games s @ new \<and> games (run tz t ls) = games t @ new)"
proof (induction ls arbitrary: s t)
  case Nil
  then show ?case by simp
next
  case (Cons l ls)
  from Cons.prems have sf: "same_fields (parse_line tz s l) (parse_line tz t l)"
    by (rule step_same_fields(1))
  from Cons.prems obtain n1 where n1: "games (parse_line tz s l) = games s @ n1"
    "games (parse_line tz t l) = games t @ n1"
    using step_same_fields(2) by blast
  from Cons.IH [OF sf] obtain n2 where n2:
    "same_fields (run tz (parse_line tz s l) ls) (run tz (parse_line tz t l) ls)"
    "games (run tz (parse_line tz s l) ls) = games (parse_line tz s l) @ n2"
    "games (run tz (parse_line tz t l) ls) = games (parse_line tz t l) @ n2"
    by blast
  show ?case
    using n1 n2 by simp
qed

lemma run_outside:
  assumes "\<not> inEvent st"
  shows "games (run tz st ls) = games st @ parse_lines tz ls"
proof -
  have "same_fields st parse_init"
    using assms by (simp add: same_fields_def parse_init_def)
  then obtain new where "games (run tz st ls) = games st @ new"
    "games (run tz parse_init ls) = games parse_init @ new"
    using run_same_fields by blast
  then show ?thesis
    by (simp add: parse_lines_run parse_init_def)
qed

lemma run_body:
  assumes "\<forall>l \<in> set body. \<not> prefix (str ''BEGIN:VEVENT'') l \<and> \<not> prefix (str ''END:VEVENT'') l"
  shows "games (run tz st body) = games st \<and> inEvent (run tz st body) = inEvent st"
  using assms
proof (induction body arbitrary: st)
  case Nil
  then show ?case by simp
next
  case (Cons l body)
  then have "games (parse_line tz st l) = games st \<and> inEvent (parse_line tz st l) = inEvent st"
    by (simp add: parse_line_def)
  then show ?case
    using Cons by simp
qed

lemma begin_same_fields:
  "prefix (str ''BEGIN:VEVENT'') b \<Longrightarrow>
   same_fields (parse_line tz st b) (parse_init\<lparr>inEvent := True\<rparr>) \<and>
   games (parse_line tz st b) = games st"
  by (simp add: parse_line_def same_fields_def parse_init_def)

lemma BEGIN_not_END: "prefix (str ''END:VEVENT'') e \<Longrightarrow> \<not> prefix (str ''BEGIN:VEVENT'') e"
  by (cases e) (simp_all add: str_def)

lemma end_step:
  assumes "prefix (str ''END:VEVENT'') e"
  shows "games (parse_line tz st e) = games st @ (case emit st of None \<Rightarrow> [] | Some g \<Rightarrow> [g])"
    and "\<not> inEvent (parse_line tz st e)"
  using assms BEGIN_not_END [OF assms]
  by (simp_all add: parse_line_def split: option.splits)

lemma one_record:
  assumes b: "prefix (str ''BEGIN:VEVENT'') b" and e: "prefix (str ''END:VEVENT'') e"
    and body: "\<forall>l \<in> set body. \<not> prefix (str ''BEGIN:VEVENT'') l \<and> \<not> prefix (str ''END:VEVENT'') l"
  shows "parse_lines tz (pre @ b # body @ e # post) =
           parse_lines tz pre
           @ (case emit (record_fields tz body) of None \<Rightarrow> [] | Some g \<Rightarrow> [g])
           @ parse_lines tz post"
proof -
  let ?s1 = "run tz parse_init pre"
  let ?s2 = "parse_line tz ?s1 b"
  let ?s3 = "run tz ?s2 body"
  let ?s4 = "parse_line tz ?s3 e"
  have s2: "same_fields ?s2 (parse_init\<lparr>inEvent := True\<rparr>)" "games ?s2 = games ?s1"
    using begin_same_fields [OF b] by simp_all
  have s3: "games ?s3 = games ?s1"
    using run_body [OF body] s2(2) by simp
  have "same_fields ?s3 (record_fields tz body)"
    unfolding record_fields_def using run_same_fields [OF s2(1)] by blast
  then have em: "emit ?s3 = emit (record_fields tz body)"
    by (rule emit_same_fields)
  have s4: "games ?s4 = games ?s1 @ (case emit (record_fields tz body) of None \<Rightarrow> [] | Some g \<Rightarrow> [g])"
    "\<not> inEvent ?s4"
    using end_step [OF e, of tz ?s3] em s3 by simp_all
  have "parse_lines tz (pre @ b # body @ e # post) = games (run tz ?s4 post)"
    by (simp add: parse_lines_run run_append)
  also have "\<dots> = games ?s4 @ parse_lines tz post"
    using s4(2) by (rule run_outside)
  finally show ?thesis
    using s4(1) by (simp add: parse_lines_run)
qed
lemma step_inv:
  assumes "parse_inv tz L st" and "l \<in> L"
  shows "parse_inv tz L (parse_line tz st l)"
proof -
  have em: "\<And>g. emit st = Some g \<Longrightarrow> complete_game tz L g"
    using assms(1) by (auto simp add: emit_Some_iff parse_inv_def complete_game_def)
  have st: "prefix (str ''DTSTART'') l \<Longrightarrow> parseDt tz (after_colon l) = Some s \<Longrightarrow>
      from_line tz L (str ''DTSTART'') s" for s
    using assms(2) by (auto simp add: from_line_def)
  have en: "prefix (str ''DTEND'') l \<Longrightarrow> parseDt tz (after_colon l) = Some s \<Longrightarrow>
      from_line tz L (str ''DTEND'') s" for s
    using assms(2) by (auto simp add: from_line_def)
  show ?thesis
    using assms(1) em st en
    by (auto simp add: parse_inv_def parse_line_def split: option.splits)
qed

lemma run_inv:
  "parse_inv tz L st \<Longrightarrow> set ls \<subseteq> L \<Longrightarrow> parse_inv tz L (run tz st ls)"
proof (induction ls arbitrary: st)
  case Nil
  then show ?case by simp
next
  case (Cons l ls)
  then have "parse_inv tz L (parse_line tz st l)"
    by (simp add: step_inv)
  then show ?case
    using Cons by simp
qed

lemma parse_lines_complete:
  "\<forall>g \<in> set (parse_lines tz ls). complete_game tz (set ls) g"
proof -
  have "parse_inv tz (set ls) parse_init"
    by (simp add: parse_inv_def parse_init_def)
  then have "parse_inv tz (set ls) (run tz parse_init ls)"
    by (rule run_inv) simp
  then show ?thesis
    by (simp add: parse_inv_def parse_lines_run)
qed

lemma no_uid_line:
  "uid st = [] \<Longrightarrow> \<forall>l \<in> set body. \<not> prefix (str ''UID:'') l \<Longrightarrow> uid (run tz st body) = []"
proof (induction body arbitrary: st)
  case Nil
  then show ?case by simp
next
  case (Cons l body)
  then have "uid (parse_line tz st l) = []"
    by (simp add: parse_line_def)
  then show ?case
    using Cons by simp
qed

lemma no_summary_line:
  "summary st = [] \<Longrightarrow> \<forall>l \<in> set body. \<not> prefix (str ''SUMMARY:'') l \<Longrightarrow>
   summary (run tz st body) = []"
proof (induction body arbitrary: st)
  case Nil
  then show ?case by simp
next
  case (Cons l body)
  then have "summary (parse_line tz st l) = []"
    by (simp add: parse_line_def)
  then show ?case
    using Cons by simp
qed

lemma no_dtstart_line:
  "dtStart st = None \<Longrightarrow> \<forall>l \<in> set body. \<not> prefix (str ''DTSTART'') l \<Longrightarrow>
   dtStart (run tz st body) = None"
proof (induction body arbitrary: st)
  case Nil
  then show ?case by simp
next
  case (Cons l body)
  then have "dtStart (parse_line tz st l) = None"
    by (simp add: parse_line_def)
  then show ?case
    using Cons by simp
qed

lemma no_dtend_line:
  "dtEnd st = None \<Longrightarrow> \<forall>l \<in> set body. \<not> prefix (str ''DTEND'') l \<Longrightarrow>
   dtEnd (run tz st body) = None"
proof (induction body arbitrary: st)
  case Nil
  then show ?case by simp
next
  case (Cons l body)
  then have "dtEnd (parse_line tz st l) = None"
    by (simp add: parse_line_def)
  then show ?case
    using Cons by simp
qed

lemma missing_field_line:
  assumes "(\<forall>l \<in> set body. \<not> prefix (str ''UID:'') l)
         \<or> (\<forall>l \<in> set body. \<not> prefix (str ''SUMMARY:'') l)
         \<or> (\<forall>l \<in> set body. \<not> prefix (str ''DTSTART'') l)
         \<or> (\<forall>l \<in> set body. \<not> prefix (str ''DTEND'') l)"
  shows "emit (record_fields tz body) = None"
proof -
  let ?s = "parse_init\<lparr>inEvent := True\<rparr>"
  have i: "uid ?s = []" "summary ?s = []" "dtStart ?s = None" "dtEnd ?s = None"
    by (simp_all add: parse_init_def)
  from assms consider
      "\<forall>l \<in> set body. \<not> prefix (str ''UID:'') l"
    | "\<forall>l \<in> set body. \<not> prefix (str ''SUMMARY:'') l"
    | "\<forall>l \<in> set body. \<not> prefix (str ''DTSTART'') l"
    | "\<forall>l \<in> set body. \<not> prefix (str ''DTEND'') l"
    by blast
  then show ?thesis
  proof cases
    case 1
    then have "uid (record_fields tz body) = []"
      unfolding record_fields_def using i(1) no_uid_line by blast
    then show ?thesis by (simp add: emit_None_iff)
  next
    case 2
    then have "summary (record_fields tz body) = []"
      unfolding record_fields_def using i(2) no_summary_line by blast
    then show ?thesis by (simp add: emit_None_iff)
  next
    case 3
    then have "dtStart (record_fields tz body) = None"
      unfolding record_fields_def using i(3) no_dtstart_line by blast
    then show ?thesis by (simp add: emit_None_iff)
  next
    case 4
    then have "dtEnd (record_fields tz body) = None"
      unfolding record_fields_def using i(4) no_dtend_line by blast
    then show ?thesis by (simp add: emit_None_iff)
  qed
qed

lemma record_fields_inEvent:
  "\<forall>l \<in> set body. \<not> prefix (str ''BEGIN:VEVENT'') l \<and> \<not> prefix (str ''END:VEVENT'') l \<Longrightarrow>
   inEvent (record_fields tz body)"
  using run_body [of body tz "parse_init\<lparr>inEvent := True\<rparr>"]
  by (simp add: record_fields_def)

text \<open>
  Claim C5. \<open>parseIcs\<close> is a total function from the text to a list of games; no step
  of it can throw. Every game of the result has an identifier and a summary that are not
  empty, and its start and end are the time values that \<open>parseDt\<close> reads from a DTSTART
  and a DTEND line of the unfolded text (a game holds a \<open>Date\<close> for each, never null).
  The games come in the order of the feed, one for each complete event and none for any
  other: for an event, that is a line starting with \<open>BEGIN:VEVENT\<close>, lines that start
  with neither marker, and a line starting with \<open>END:VEVENT\<close>, the result is the games of
  the lines before it, then the game of the event if the event is complete, then the
  games of the lines after it. The event is complete exactly when, after its lines, the
  identifier and the summary are not empty and the start and the end are not null; an
  event with no \<open>UID:\<close> line, no \<open>SUMMARY:\<close> line, no DTSTART line or no DTEND line
  gives no game, and no error either.
\<close>

theorem parser_emits_complete_events:
  "(\<forall>g \<in> set (parseIcs tz text). complete_game tz (set (unfoldIcsLines text)) g)
   \<and> (prefix (str ''BEGIN:VEVENT'') b \<and> prefix (str ''END:VEVENT'') e \<and>
        (\<forall>l \<in> set body. \<not> prefix (str ''BEGIN:VEVENT'') l \<and> \<not> prefix (str ''END:VEVENT'') l)
        \<longrightarrow>
          parse_lines tz (pre @ b # body @ e # post) =
            parse_lines tz pre
            @ (case emit (record_fields tz body) of None \<Rightarrow> [] | Some g \<Rightarrow> [g])
            @ parse_lines tz post
          \<and> (emit (record_fields tz body) = None \<longleftrightarrow>
                uid (record_fields tz body) = [] \<or> summary (record_fields tz body) = [] \<or>
                dtStart (record_fields tz body) = None \<or> dtEnd (record_fields tz body) = None))
   \<and> ((\<forall>l \<in> set body. \<not> prefix (str ''UID:'') l)
        \<or> (\<forall>l \<in> set body. \<not> prefix (str ''SUMMARY:'') l)
        \<or> (\<forall>l \<in> set body. \<not> prefix (str ''DTSTART'') l)
        \<or> (\<forall>l \<in> set body. \<not> prefix (str ''DTEND'') l)
        \<longrightarrow> emit (record_fields tz body) = None)"
proof (intro conjI impI)
  show "\<forall>g \<in> set (parseIcs tz text). complete_game tz (set (unfoldIcsLines text)) g"
    unfolding parseIcs_def by (rule parse_lines_complete)
next
  assume a: "prefix (str ''BEGIN:VEVENT'') b \<and> prefix (str ''END:VEVENT'') e \<and>
        (\<forall>l \<in> set body. \<not> prefix (str ''BEGIN:VEVENT'') l \<and> \<not> prefix (str ''END:VEVENT'') l)"
  then show "parse_lines tz (pre @ b # body @ e # post) =
            parse_lines tz pre
            @ (case emit (record_fields tz body) of None \<Rightarrow> [] | Some g \<Rightarrow> [g])
            @ parse_lines tz post"
    by (simp add: one_record)
  from a have "inEvent (record_fields tz body)"
    by (simp add: record_fields_inEvent)
  then show "emit (record_fields tz body) = None \<longleftrightarrow>
                uid (record_fields tz body) = [] \<or> summary (record_fields tz body) = [] \<or>
                dtStart (record_fields tz body) = None \<or> dtEnd (record_fields tz body) = None"
    by (simp add: emit_None_iff)
next
  assume "(\<forall>l \<in> set body. \<not> prefix (str ''UID:'') l)
        \<or> (\<forall>l \<in> set body. \<not> prefix (str ''SUMMARY:'') l)
        \<or> (\<forall>l \<in> set body. \<not> prefix (str ''DTSTART'') l)
        \<or> (\<forall>l \<in> set body. \<not> prefix (str ''DTEND'') l)"
  then show "emit (record_fields tz body) = None"
    by (rule missing_field_line)
qed
lemma str_eq_Nil [simp]: "str s = [] \<longleftrightarrow> s = []"
  by (simp add: str_def)

lemma demo_stamps:
  "parseDt id (str ''20260222T140000Z'') = Some 1771768800000"
  "parseDt id (str ''20260222T160000Z'') = Some 1771776000000"
  "parseDt id (str ''2026-02-22'') = None"
  by (simp_all add: parseDt_def Date_UTC_def MakeDate_def MakeDay_def MakeTime_def full_year_def
      digits_val_def is_digit_def Let_def str_def)

lemma demo_values:
  "after_colon (str ''DTSTART:20260222T140000Z'') = str ''20260222T140000Z''"
  "after_colon (str ''DTEND:20260222T160000Z'') = str ''20260222T160000Z''"
  "after_colon (str ''DTSTART:2026-02-22'') = str ''2026-02-22''"
  by (simp_all add: after_colon_def js_split_def trim_def is_ws_def str_def)

lemma demo_trims:
  "trim (drop 4 (str ''UID:u'')) = str ''u''"
  "trim (drop 8 (str ''SUMMARY:s'')) = str ''s''"
  by (simp_all add: trim_def is_ws_def str_def)

lemma demo_prefixes:
  "\<not> prefix (str ''BEGIN:VEVENT'') (str ''UID:u'')"
  "\<not> prefix (str ''END:VEVENT'') (str ''UID:u'')"
  "prefix (str ''UID:'') (str ''UID:u'')"
  "\<not> prefix (str ''BEGIN:VEVENT'') (str ''SUMMARY:s'')"
  "\<not> prefix (str ''END:VEVENT'') (str ''SUMMARY:s'')"
  "\<not> prefix (str ''UID:'') (str ''SUMMARY:s'')"
  "prefix (str ''SUMMARY:'') (str ''SUMMARY:s'')"
  "\<not> prefix (str ''BEGIN:VEVENT'') (str ''DTSTART:20260222T140000Z'')"
  "\<not> prefix (str ''END:VEVENT'') (str ''DTSTART:20260222T140000Z'')"
  "\<not> prefix (str ''UID:'') (str ''DTSTART:20260222T140000Z'')"
  "\<not> prefix (str ''SUMMARY:'') (str ''DTSTART:20260222T140000Z'')"
  "\<not> prefix (str ''LOCATION:'') (str ''DTSTART:20260222T140000Z'')"
  "prefix (str ''DTSTART'') (str ''DTSTART:20260222T140000Z'')"
  "\<not> prefix (str ''BEGIN:VEVENT'') (str ''DTSTART:2026-02-22'')"
  "\<not> prefix (str ''END:VEVENT'') (str ''DTSTART:2026-02-22'')"
  "\<not> prefix (str ''UID:'') (str ''DTSTART:2026-02-22'')"
  "\<not> prefix (str ''SUMMARY:'') (str ''DTSTART:2026-02-22'')"
  "\<not> prefix (str ''LOCATION:'') (str ''DTSTART:2026-02-22'')"
  "prefix (str ''DTSTART'') (str ''DTSTART:2026-02-22'')"
  "\<not> prefix (str ''BEGIN:VEVENT'') (str ''DTEND:20260222T160000Z'')"
  "\<not> prefix (str ''END:VEVENT'') (str ''DTEND:20260222T160000Z'')"
  "\<not> prefix (str ''UID:'') (str ''DTEND:20260222T160000Z'')"
  "\<not> prefix (str ''SUMMARY:'') (str ''DTEND:20260222T160000Z'')"
  "\<not> prefix (str ''LOCATION:'') (str ''DTEND:20260222T160000Z'')"
  "\<not> prefix (str ''DTSTART'') (str ''DTEND:20260222T160000Z'')"
  "prefix (str ''DTEND'') (str ''DTEND:20260222T160000Z'')"
  "prefix (str ''BEGIN:VEVENT'') (str ''BEGIN:VEVENT'')"
  "prefix (str ''END:VEVENT'') (str ''END:VEVENT'')"
  by (simp_all add: str_def)

lemma demo_complete_event:
  "emit (record_fields id
     [str ''UID:u'', str ''SUMMARY:s'', str ''DTSTART:20260222T140000Z'',
      str ''DTEND:20260222T160000Z''])
   = Some \<lparr>g_uid = str ''u'', g_summary = str ''s'', g_start = 1771768800000,
           g_end = 1771776000000, g_location = None, g_isHome = None\<rparr>"
  by (simp add: record_fields_def parse_line_def parse_init_def emit_def demo_prefixes
      demo_trims demo_values demo_stamps)

lemma demo_malformed_event:
  "emit (record_fields id
     [str ''UID:u'', str ''SUMMARY:s'', str ''DTSTART:2026-02-22'',
      str ''DTEND:20260222T160000Z'']) = None"
  by (simp add: record_fields_def parse_line_def parse_init_def emit_def demo_prefixes
      demo_trims demo_values demo_stamps)

theorem parser_emits_complete_events_witness:
  "parse_lines id
     ([str ''BEGIN:VEVENT'', str ''UID:u'', str ''SUMMARY:s'', str ''DTSTART:2026-02-22'',
       str ''DTEND:20260222T160000Z'', str ''END:VEVENT'']
      @ str ''BEGIN:VEVENT''
        # [str ''UID:u'', str ''SUMMARY:s'', str ''DTSTART:20260222T140000Z'',
           str ''DTEND:20260222T160000Z'']
        @ str ''END:VEVENT'' # [])
   = [\<lparr>g_uid = str ''u'', g_summary = str ''s'', g_start = 1771768800000,
       g_end = 1771776000000, g_location = None, g_isHome = None\<rparr>]"
proof -
  let ?bad = "[str ''UID:u'', str ''SUMMARY:s'', str ''DTSTART:2026-02-22'',
       str ''DTEND:20260222T160000Z'']"
  let ?good = "[str ''UID:u'', str ''SUMMARY:s'', str ''DTSTART:20260222T140000Z'',
           str ''DTEND:20260222T160000Z'']"
  have empty: "parse_lines id [] = []"
    by (simp add: parse_lines_def parse_init_def)
  have "parse_lines id ([] @ str ''BEGIN:VEVENT'' # ?bad @ str ''END:VEVENT'' # []) = []"
    using parser_emits_complete_events
      [of id "[]" "str ''BEGIN:VEVENT''" "str ''END:VEVENT''" ?bad "[]" "[]"]
    by (simp add: demo_prefixes demo_malformed_event empty)
  then have bad: "parse_lines id [str ''BEGIN:VEVENT'', str ''UID:u'', str ''SUMMARY:s'',
      str ''DTSTART:2026-02-22'', str ''DTEND:20260222T160000Z'', str ''END:VEVENT''] = []"
    by simp
  show ?thesis
    using parser_emits_complete_events
      [of id "[]" "str ''BEGIN:VEVENT''" "str ''END:VEVENT''" ?good
        "[str ''BEGIN:VEVENT'', str ''UID:u'', str ''SUMMARY:s'', str ''DTSTART:2026-02-22'',
          str ''DTEND:20260222T160000Z'', str ''END:VEVENT'']" "[]"]
    by (simp add: demo_prefixes demo_complete_event empty bad)
qed

section \<open>Unfolding and re-wrapping\<close>


























end
